theory Spec2Isabelle
  imports Complex_Main
begin

section \<open>Cards\<close>

text \<open>
  A card is the object \<open>{suit, rank}\<close> that \<open>createShuffledDeck\<close> builds from
  the four suit strings and the thirteen rank strings. The two enumerations stand for
  exactly these strings.
\<close>

datatype suit = Hearts | Diamonds | Clubs | Spades

datatype rank = R2 | R3 | R4 | R5 | R6 | R7 | R8 | R9 | RT | RJ | RQ | RK | RA

record card =
  suit :: suit
  rank :: rank

section \<open>Numbers\<close>

text \<open>
  Stacks, bets, the pot and the amount of a raise are JavaScript numbers: binary
  floating-point numbers with a significand of 53 bits. A finite number is modelled by
  the real number it denotes, and the sum or difference the program computes is the exact
  result rounded to the nearest number of the format, a tie going to the even
  significand (\<open>fl\<close>). Comparisons, \<open>Math.min\<close>, \<open>Math.max\<close> and
  \<open>Math.floor\<close> are exact. The model covers finite numbers of magnitude below
  \<open>2^1024\<close>: \<open>NaN\<close> and the infinities are left out (as the amount of a raise
  they move no chips or, for positive infinity, the whole stack).
\<close>

definition roundEven :: "real \<Rightarrow> int" where
  "roundEven y =
     (let f = \<lfloor>y\<rfloor>; r = y - of_int f
      in if r < 1 / 2 then f
         else if r > 1 / 2 then f + 1
         else if even f then f else f + 1)"

text \<open>The exponent of the binade of \<open>x\<close>, held at the smallest exponent of a
  normal number, and the distance between neighbouring numbers of the format there.\<close>

definition binade :: "real \<Rightarrow> int" where
  "binade x = max (- 1022) \<lfloor>log 2 \<bar>x\<bar>\<rfloor>"

definition ulp :: "real \<Rightarrow> real" where
  "ulp x = 2 powi (binade x - 52)"

definition fl :: "real \<Rightarrow> real" where
  "fl x = (if x = 0 then 0 else ulp x * of_int (roundEven (x / ulp x)))"

text \<open>The number that the literal \<open>10.1\<close> denotes.\<close>

definition tenPointOne :: real where
  "tenPointOne = 5685794529555251 / 562949953421312"

section \<open>The game engine (poker-game-engine.js)\<close>

record player =
  stack :: real
  folded :: bool
  betInCurrentRound :: real
  isActive :: bool

record log_entry =
  event :: string
  entryRound :: string
  entryPotSize :: real

record engine =
  bots :: "player list"
  humanPlayer :: player
  currentRound :: string
  potSize :: real
  boardCards :: "card list"
  deck :: "card list"
  gameLog :: "log_entry list"

text \<open>
  The engine's methods receive a player object by reference: \<open>this.humanPlayer\<close>
  or \<open>this.bots[i]\<close>. A reference is modelled by its place in the engine, so that
  a write through the reference is a write to the engine. \<open>this.bots[i]\<close> with
  \<open>i\<close> out of range is \<open>undefined\<close>, here \<open>None\<close>.
\<close>

datatype player_ref = Human | Bot nat

definition getPlayer :: "engine \<Rightarrow> player_ref \<Rightarrow> player option" where
  "getPlayer s p =
     (case p of
        Human \<Rightarrow> Some (humanPlayer s)
      | Bot i \<Rightarrow> (if i < length (bots s) then Some (bots s ! i) else None))"

definition setPlayer :: "engine \<Rightarrow> player_ref \<Rightarrow> player \<Rightarrow> engine" where
  "setPlayer s p pl =
     (case p of
        Human \<Rightarrow> s\<lparr>humanPlayer := pl\<rparr>
      | Bot i \<Rightarrow> s\<lparr>bots := (bots s)[i := pl]\<rparr>)"

text \<open>What a \<open>throw\<close> carries: an \<open>Error\<close> with its message, or the
  \<open>TypeError\<close> of a property access on \<open>undefined\<close>.\<close>

datatype js_error = Error string | TypeError

fun errorMessage :: "js_error \<Rightarrow> string" where
  "errorMessage (Error m) = m"
| "errorMessage TypeError = ''TypeError''"

definition logEvent :: "engine \<Rightarrow> string \<Rightarrow> engine" where
  "logEvent s ev =
     s\<lparr>gameLog := gameLog s @
          [\<lparr>event = ev, entryRound = currentRound s, entryPotSize = potSize s\<rparr>]\<rparr>"

definition highestBotBet :: "player list \<Rightarrow> real" where
  "highestBotBet bs =
     fold (\<lambda>bot highestBet.
             if \<not> folded bot \<and> betInCurrentRound bot > highestBet
             then betInCurrentRound bot else highestBet) bs 0"

definition calculateCallAmount :: "engine \<Rightarrow> player \<Rightarrow> real" where
  "calculateCallAmount s pl =
     (let highestBet = highestBotBet (bots s);
          highestBet = (if \<not> folded (humanPlayer s)
                           \<and> betInCurrentRound (humanPlayer s) > highestBet
                        then betInCurrentRound (humanPlayer s) else highestBet)
      in max 0 (fl (highestBet - betInCurrentRound pl)))"

record action_result =
  success :: bool
  action :: string
  amount :: "real option"
  remainingStack :: "real option"
  error :: "string option"

text \<open>The \<open>switch\<close> of \<open>applyAction\<close>: the state after the matching case,
  or the error thrown.\<close>

definition applySwitch :: "engine \<Rightarrow> player_ref \<Rightarrow> string \<Rightarrow> real \<Rightarrow> js_error + engine" where
  "applySwitch s p act amt =
     (if act = ''fold'' then
        (case getPlayer s p of
           None \<Rightarrow> Inl TypeError
         | Some pl \<Rightarrow> Inr (setPlayer s p (pl\<lparr>folded := True, isActive := False\<rparr>)))
      else if act = ''call'' then
        (case getPlayer s p of
           None \<Rightarrow> Inl TypeError
         | Some pl \<Rightarrow>
             (let callAmount = min (calculateCallAmount s pl) (stack pl)
              in if callAmount > 0
                 then Inr ((setPlayer s p
                              (pl\<lparr>stack := fl (stack pl - callAmount),
                                  betInCurrentRound := fl (betInCurrentRound pl + callAmount)\<rparr>))
                           \<lparr>potSize := fl (potSize s + callAmount)\<rparr>)
                 else Inr s))
      else if act = ''raise'' then
        (case getPlayer s p of
           None \<Rightarrow> Inl TypeError
         | Some pl \<Rightarrow>
             (let actualRaise = min amt (stack pl)
              in if actualRaise > 0
                 then Inr ((setPlayer s p
                              (pl\<lparr>stack := fl (stack pl - actualRaise),
                                  betInCurrentRound := fl (betInCurrentRound pl + actualRaise)\<rparr>))
                           \<lparr>potSize := fl (potSize s + actualRaise)\<rparr>)
                 else Inr s))
      else Inl (Error (''Unknown action: '' @ act)))"

text \<open>The \<open>try\<close> block: the switch, then the result record, whose fields are read
  from the player after the switch has run.\<close>

definition applyTry :: "engine \<Rightarrow> player_ref \<Rightarrow> string \<Rightarrow> real \<Rightarrow> js_error + engine \<times> action_result" where
  "applyTry s p act amt =
     (case applySwitch s p act amt of
        Inl e \<Rightarrow> Inl e
      | Inr s' \<Rightarrow>
          (case getPlayer s' p of
             None \<Rightarrow> Inl TypeError
           | Some pl' \<Rightarrow>
               Inr (s', \<lparr>success = True, action = act,
                         amount = Some (if act = ''call''
                                        then min (calculateCallAmount s' pl') (stack pl')
                                        else if act = ''raise'' then min amt (stack pl')
                                        else 0),
                         remainingStack = Some (stack pl'),
                         error = None\<rparr>)))"

definition applyAction :: "engine \<Rightarrow> player_ref \<Rightarrow> string \<Rightarrow> real \<Rightarrow> engine \<times> action_result" where
  "applyAction s p act amt =
     (case applyTry s p act amt of
        Inr r \<Rightarrow> r
      | Inl e \<Rightarrow>
          (logEvent s (''Error applying action '' @ act @ '': '' @ errorMessage e),
           \<lparr>success = False, action = act, amount = None, remainingStack = None,
            error = Some (errorMessage e)\<rparr>))"

subsection \<open>Pot accounting\<close>

definition totalStacks :: "engine \<Rightarrow> real" where
  "totalStacks s = stack (humanPlayer s) + sum_list (map stack (bots s))"

text \<open>What every actor has put in between two states of a hand: the amount by which
  each actor's stack has gone down, summed over the human player and the bots.\<close>

definition contributions :: "engine \<Rightarrow> engine \<Rightarrow> real" where
  "contributions s0 s =
     (stack (humanPlayer s0) - stack (humanPlayer s))
     + sum_list (map (\<lambda>(b0, b). stack b0 - stack b) (zip (bots s0) (bots s)))"

definition stacksNonNegative :: "engine \<Rightarrow> bool" where
  "stacksNonNegative s \<longleftrightarrow>
     0 \<le> stack (humanPlayer s) \<and> list_all (\<lambda>b. 0 \<le> stack b) (bots s)"

text \<open>Whole chips: one player's stack and street bet are whole numbers, not negative,
  and together below \<open>2^53\<close>; in an engine this holds of every player, and the pot is
  a whole number, not negative, and together with all stacks below \<open>2^53\<close>.\<close>

definition wholeChips :: "player \<Rightarrow> bool" where
  "wholeChips pl \<longleftrightarrow>
     stack pl \<in> \<int> \<and> 0 \<le> stack pl \<and> betInCurrentRound pl \<in> \<int> \<and> 0 \<le> betInCurrentRound pl
     \<and> stack pl + betInCurrentRound pl < 2 ^ 53"

definition wholeChipState :: "engine \<Rightarrow> bool" where
  "wholeChipState s \<longleftrightarrow>
     wholeChips (humanPlayer s) \<and> list_all wholeChips (bots s)
     \<and> potSize s \<in> \<int> \<and> 0 \<le> potSize s \<and> potSize s + totalStacks s < 2 ^ 53"

text \<open>A sequence of \<open>applyAction\<close> calls, each on the engine the previous one left.\<close>

fun applyActions :: "engine \<Rightarrow> (player_ref \<times> string \<times> real) list \<Rightarrow> engine" where
  "applyActions s [] = s"
| "applyActions s ((p, act, amt) # calls) = applyActions (fst (applyAction s p act amt)) calls"

subsection \<open>Starting a game and a hand\<close>

fun showNat :: "nat \<Rightarrow> string" where
  "showNat n =
     (if n < 10 then [''0123456789'' ! n]
      else showNat (n div 10) @ [''0123456789'' ! (n mod 10)])"

text \<open>\<open>ensureValidStack\<close>. The test for a value that is not a number has no
  counterpart: the argument is a number by its type.\<close>

definition ensureValidStack :: "real \<Rightarrow> real" where
  "ensureValidStack st =
     (let minStack = 100; maxStack = 1000000
      in if st < minStack then minStack
         else if st > maxStack then maxStack
         else of_int \<lfloor>st\<rfloor>)"

text \<open>\<open>x.startingStack || 2000\<close>: an absent or zero stack is replaced by 2000.\<close>

definition startingStackOr :: "real option \<Rightarrow> real" where
  "startingStackOr st = (case st of None \<Rightarrow> 2000 | Some x \<Rightarrow> (if x = 0 then 2000 else x))"

text \<open>\<open>resetRoundState\<close>. The deck is the one \<open>createShuffledDeck\<close> returns;
  the outcome of its shuffle is the argument \<open>shuffled\<close>.\<close>

definition resetRoundState :: "card list \<Rightarrow> engine \<Rightarrow> engine" where
  "resetRoundState shuffled s =
     (let s1 = s\<lparr>currentRound := ''preflop'', potSize := 0, boardCards := []\<rparr>;
          s2 = (logEvent s1 (''Deck created with '' @ showNat (length shuffled)
                              @ '' cards and shuffled''))\<lparr>deck := shuffled\<rparr>;
          s3 = s2\<lparr>bots := map (\<lambda>bot. bot\<lparr>betInCurrentRound := 0, folded := False,
                                          isActive := True\<rparr>) (bots s2)\<rparr>;
          s4 = s3\<lparr>humanPlayer := (humanPlayer s3)\<lparr>betInCurrentRound := 0, folded := False,
                                                  isActive := True\<rparr>\<rparr>
      in logEvent s4 ''Round state reset for new hand'')"

text \<open>\<open>initializeGame\<close>, on the \<open>startingStack\<close> fields of the bot objects and
  of the human player object (\<open>None\<close> for an object without the field); the human
  player object itself is present. The fields the constructor leaves empty are
  overwritten by \<open>resetRoundState\<close> before anything reads them.\<close>

definition initializeGame :: "card list \<Rightarrow> real option list \<Rightarrow> real option \<Rightarrow> js_error + engine" where
  "initializeGame shuffled botPlayers human =
     (if botPlayers = [] then Inl (Error ''At least one bot player is required'')
      else
        (let newPlayer = (\<lambda>st. \<lparr>stack = ensureValidStack (startingStackOr st), folded = False,
                                betInCurrentRound = 0, isActive = True\<rparr>);
             s = \<lparr>bots = map newPlayer botPlayers, humanPlayer = newPlayer human,
                  currentRound = [], potSize = 0, boardCards = [], deck = [], gameLog = []\<rparr>
         in Inr (logEvent (resetRoundState shuffled s) ''Game initialized with players'')))"

text \<open>The deck before the shuffle: every suit with every rank, in the order of the two
  loops of \<open>createShuffledDeck\<close>.\<close>

definition orderedDeck :: "card list" where
  "orderedDeck =
     concat (map (\<lambda>s. map (\<lambda>r. \<lparr>suit = s, rank = r\<rparr>)
                         [R2, R3, R4, R5, R6, R7, R8, R9, RT, RJ, RQ, RK, RA])
                 [Hearts, Diamonds, Clubs, Spades])"

subsection \<open>Streets\<close>

definition updatePotSize :: "engine \<Rightarrow> engine" where
  "updatePotSize s =
     (let total = fold (\<lambda>bot total. fl (total + betInCurrentRound bot)) (bots s) 0;
          total = fl (total + betInCurrentRound (humanPlayer s))
      in s\<lparr>potSize := total\<rparr>)"

text \<open>\<open>this.boardCards.push(this.deck.shift())\<close> under its guard
  \<open>this.deck.length > 0\<close>.\<close>

definition dealOne :: "engine \<Rightarrow> engine" where
  "dealOne s =
     (case deck s of
        [] \<Rightarrow> s
      | c # rest \<Rightarrow> s\<lparr>boardCards := boardCards s @ [c], deck := rest\<rparr>)"

definition burn :: "engine \<Rightarrow> engine" where
  "burn s = s\<lparr>deck := tl (deck s)\<rparr>"

definition dealFlop :: "engine \<Rightarrow> js_error + engine" where
  "dealFlop s =
     (if length (deck s) < 4 then Inl (Error ''Not enough cards in deck to deal flop'')
      else Inr (dealOne (dealOne (dealOne (burn s)))))"

definition dealTurn :: "engine \<Rightarrow> js_error + engine" where
  "dealTurn s =
     (if length (deck s) < 2 then Inl (Error ''Not enough cards in deck to deal turn'')
      else Inr (dealOne (burn s)))"

definition dealRiver :: "engine \<Rightarrow> js_error + engine" where
  "dealRiver s =
     (if length (deck s) < 2 then Inl (Error ''Not enough cards in deck to deal river'')
      else Inr (dealOne (burn s)))"

text \<open>
  \<open>startRound\<close>. A \<open>throw\<close> leaves the engine as the statements before it wrote
  it, so the result is the engine together with the error, if any. The call to the
  advisory service at the end (\<open>getBotStrategicIntent\<close>) reads the engine, catches its
  own failures and returns a value that is dropped; what it leaves in the engine is its
  log entry.
\<close>

definition startRound :: "engine \<Rightarrow> string \<Rightarrow> card list \<Rightarrow> engine \<times> js_error option" where
  "startRound s rnd communityCards =
     (if rnd \<notin> set [''preflop'', ''flop'', ''turn'', ''river'']
      then (s, Some (Error (''Invalid round: '' @ rnd
                            @ ''. Must be one of: preflop, flop, turn, river'')))
      else
        (let s1 = s\<lparr>currentRound := rnd, boardCards := communityCards\<rparr>;
             s2 = updatePotSize s1;
             s3 = s2\<lparr>bots := map (\<lambda>bot. bot\<lparr>betInCurrentRound := 0\<rparr>) (bots s2)\<rparr>;
             s4 = s3\<lparr>humanPlayer := (humanPlayer s3)\<lparr>betInCurrentRound := 0\<rparr>\<rparr>;
             dealt =
               (if rnd = ''flop'' \<and> length (boardCards s4) = 0
                then map_sum id (\<lambda>t. logEvent t ''Flop dealt'') (dealFlop s4)
                else if rnd = ''turn'' \<and> length (boardCards s4) = 3
                then map_sum id (\<lambda>t. logEvent t ''Turn card dealt'') (dealTurn s4)
                else if rnd = ''river'' \<and> length (boardCards s4) = 4
                then map_sum id (\<lambda>t. logEvent t ''River card dealt'') (dealRiver s4)
                else Inr s4)
         in case dealt of
              Inl e \<Rightarrow> (s4, Some e)
            | Inr s5 \<Rightarrow>
                (let s6 = logEvent s5 ''AI strategic intent obtained for round''
                 in (logEvent s6 (''Round '' @ rnd @ '' started with ''
                        @ showNat (length (filter (\<lambda>b. \<not> folded b) (bots s6)))
                        @ '' active bots''), None))))"

subsection \<open>End of a betting round, end of a hand\<close>

text \<open>\<open>[...new Set(xs)]\<close>: the distinct elements in the order of their first
  occurrence.\<close>

definition uniq :: "'a list \<Rightarrow> 'a list" where
  "uniq xs = fold (\<lambda>x acc. if x \<in> set acc then acc else acc @ [x]) xs []"

text \<open>\<open>Math.max(...xs)\<close>; \<open>None\<close> is the \<open>-Infinity\<close> of no argument.\<close>

fun mathMax :: "'a::linorder list \<Rightarrow> 'a option" where
  "mathMax [] = None"
| "mathMax (x # xs) = Some (fold max xs x)"

definition isBettingRoundComplete :: "engine \<Rightarrow> bool" where
  "isBettingRoundComplete s =
     (let activePlayers = humanPlayer s # filter (\<lambda>b. isActive b \<and> \<not> folded b) (bots s)
      in if length activePlayers \<le> 1 then True
         else
           (let betAmounts = map betInCurrentRound activePlayers;
                uniqueBetAmounts = uniq betAmounts
            in length uniqueBetAmounts = 1))"

definition isRoundComplete :: "engine \<Rightarrow> bool" where
  "isRoundComplete s =
     (let activePlayers = humanPlayer s # filter (\<lambda>b. \<not> folded b \<and> isActive b) (bots s)
      in if length activePlayers \<le> 1 then True
         else
           (let betAmounts = uniq (map betInCurrentRound activePlayers)
            in if length betAmounts = 1 then True
               else
                 (let highestBet = mathMax (map betInCurrentRound activePlayers);
                      playersWithHighestBet =
                        filter (\<lambda>p. Some (betInCurrentRound p) = highestBet) activePlayers;
                      allInPlayers = filter (\<lambda>p. stack p = 0) activePlayers
                  in length playersWithHighestBet + length allInPlayers
                       = length activePlayers)))"

definition isHandComplete :: "engine \<Rightarrow> bool" where
  "isHandComplete s =
     (let activePlayers = humanPlayer s # filter (\<lambda>b. \<not> folded b \<and> isActive b) (bots s)
      in length activePlayers \<le> 1)"

definition getLegalActions :: "string list" where
  "getLegalActions = [''fold'', ''call'', ''raise'']"

text \<open>The actors of a hand, the human player first, and those of them that are active
  and have not folded: the actors the specification's round and hand conditions count.\<close>

definition actors :: "engine \<Rightarrow> player list" where
  "actors s = humanPlayer s # bots s"

definition activeUnfolded :: "engine \<Rightarrow> player list" where
  "activeUnfolded s = filter (\<lambda>p. isActive p \<and> \<not> folded p) (actors s)"

text \<open>The condition under which the specification says a betting round is over: the
  bets of the active, unfolded actors are all the same.\<close>

definition allActiveBetsEqual :: "engine \<Rightarrow> bool" where
  "allActiveBetsEqual s \<longleftrightarrow> length (uniq (map betInCurrentRound (activeUnfolded s))) \<le> 1"

text \<open>The condition under which the specification says a betting round is not over:
  some active, unfolded actor has a bet different from the highest bet of the street
  among these actors and still has chips.\<close>

definition actorStillToAct :: "engine \<Rightarrow> bool" where
  "actorStillToAct s =
     (let highest = mathMax (map betInCurrentRound (activeUnfolded s))
      in list_ex (\<lambda>p. Some (betInCurrentRound p) \<noteq> highest \<and> stack p > 0)
                 (activeUnfolded s))"

section \<open>Hand evaluation (poker-utils.js)\<close>

fun getCardRankValue :: "rank \<Rightarrow> int" where
  "getCardRankValue RA = 14"
| "getCardRankValue RK = 13"
| "getCardRankValue RQ = 12"
| "getCardRankValue RJ = 11"
| "getCardRankValue RT = 10"
| "getCardRankValue R9 = 9"
| "getCardRankValue R8 = 8"
| "getCardRankValue R7 = 7"
| "getCardRankValue R6 = 6"
| "getCardRankValue R5 = 5"
| "getCardRankValue R4 = 4"
| "getCardRankValue R3 = 3"
| "getCardRankValue R2 = 2"

text \<open>\<open>counts[k] = (counts[k] || 0) + 1\<close> on an object kept as the list of its
  entries, a new key going to the end.\<close>

fun countUp :: "'a \<Rightarrow> ('a \<times> nat) list \<Rightarrow> ('a \<times> nat) list" where
  "countUp k [] = [(k, 1)]"
| "countUp k ((k', c) # m) = (if k = k' then (k', c + 1) # m else (k', c) # countUp k m)"

definition tally :: "'a list \<Rightarrow> ('a \<times> nat) list" where
  "tally xs = fold countUp xs []"

text \<open>\<open>xs.sort((a, b) => b - a)\<close>.\<close>

definition sortDesc :: "'a::linorder list \<Rightarrow> 'a list" where
  "sortDesc xs = rev (sort xs)"

text \<open>\<open>xs[i]\<close>, \<open>None\<close> for the \<open>undefined\<close> of an index out of range.\<close>

definition elemAt :: "'a list \<Rightarrow> nat \<Rightarrow> 'a option" where
  "elemAt xs i = (if i < length xs then Some (xs ! i) else None)"

text \<open>The two nested loops that look for five consecutive values in a list of distinct
  values in descending order: some start \<open>i \<le> length u - 5\<close> with
  \<open>u[i + j] - 1 = u[i + j + 1]\<close> for \<open>j = 0..3\<close>. The callers guard it with
  \<open>u.length >= 5\<close>.\<close>

definition hasRun :: "int list \<Rightarrow> bool" where
  "hasRun u =
     list_ex (\<lambda>i. list_all (\<lambda>j. u ! (i + j) - 1 = u ! (i + j + 1)) [0..<4])
             [0..<length u - 4]"

definition hasWheel :: "int list \<Rightarrow> bool" where
  "hasWheel u \<longleftrightarrow> 14 \<in> set u \<and> 5 \<in> set u \<and> 4 \<in> set u \<and> 3 \<in> set u \<and> 2 \<in> set u"

record hand_details =
  rankCounts :: "(int \<times> nat) list"
  suitCounts :: "(suit \<times> nat) list"

record evaluation =
  category :: string
  val :: int
  description :: string
  details :: "hand_details option"

text \<open>The body of the loop \<open>for (const suit in suitCounts)\<close>, on the pair of flags
  \<open>(isStraightFlush, isRoyalFlush)\<close>.\<close>

definition suitedStep :: "card list \<Rightarrow> suit \<times> nat \<Rightarrow> bool \<times> bool \<Rightarrow> bool \<times> bool" where
  "suitedStep allCards entry flags =
     (let (isStraightFlush, isRoyalFlush) = flags
      in if snd entry \<ge> 5 then
           (let suitedRanks = sortDesc (map (\<lambda>c. getCardRankValue (rank c))
                                            (filter (\<lambda>c. suit c = fst entry) allCards));
                uniqueSuitedRanks = uniq suitedRanks
            in if length uniqueSuitedRanks \<ge> 5 then
                 (let found = hasRun uniqueSuitedRanks;
                      isStraightFlush = (isStraightFlush \<or> found);
                      isRoyalFlush =
                        (isRoyalFlush \<or>
                         (found \<and> elemAt uniqueSuitedRanks 0 = Some 14
                          \<and> 13 \<in> set uniqueSuitedRanks \<and> 12 \<in> set uniqueSuitedRanks
                          \<and> 11 \<in> set uniqueSuitedRanks \<and> 10 \<in> set uniqueSuitedRanks));
                      isStraightFlush =
                        (if \<not> isStraightFlush \<and> hasWheel uniqueSuitedRanks then True
                         else isStraightFlush)
                  in (isStraightFlush, isRoyalFlush))
               else (isStraightFlush, isRoyalFlush))
         else (isStraightFlush, isRoyalFlush))"

definition evaluatePokerHand :: "card list \<Rightarrow> card list \<Rightarrow> evaluation" where
  "evaluatePokerHand holeCards communityCards =
     (let allCards = holeCards @ communityCards
      in if length allCards < 5
         then \<lparr>category = ''high_card'', val = 0, description = ''Incomplete hand'',
               details = None\<rparr>
         else
           (let ranks = sortDesc (map (\<lambda>c. getCardRankValue (rank c)) allCards);
                suits = map suit allCards;
                rankCounts = sort_key fst (tally ranks);
                suitCounts = tally suits;
                sortedRankCounts = sortDesc (map snd rankCounts);
                maxSuitCount = mathMax (map snd suitCounts);
                uniqueRanks = sortDesc (uniq ranks);
                isWheel = hasWheel uniqueRanks;
                isStraight = (\<not> isWheel \<and> length uniqueRanks \<ge> 5 \<and> hasRun uniqueRanks);
                isFlush = (case maxSuitCount of None \<Rightarrow> False | Some m \<Rightarrow> m \<ge> 5);
                (isStraightFlush, isRoyalFlush) =
                  (if isFlush then fold (suitedStep allCards) suitCounts (False, False)
                   else (False, False));
                result = (\<lambda>c v d. \<lparr>category = c, val = v, description = d,
                            details = Some \<lparr>rankCounts = rankCounts, suitCounts = suitCounts\<rparr>\<rparr>)
            in if isRoyalFlush then result ''royal_flush'' 10 ''Royal Flush''
               else if isStraightFlush then result ''straight_flush'' 9 ''Straight Flush''
               else if elemAt sortedRankCounts 0 = Some 4
                 then result ''four_of_a_kind'' 8 ''Four of a Kind''
               else if elemAt sortedRankCounts 0 = Some 3 \<and> elemAt sortedRankCounts 1 = Some 2
                 then result ''full_house'' 7 ''Full House''
               else if isFlush then result ''flush'' 6 ''Flush''
               else if isStraight \<or> isWheel then result ''straight'' 5 ''Straight''
               else if elemAt sortedRankCounts 0 = Some 3
                 then result ''three_of_a_kind'' 4 ''Three of a Kind''
               else if elemAt sortedRankCounts 0 = Some 2 \<and> elemAt sortedRankCounts 1 = Some 2
                 then result ''two_pair'' 3 ''Two Pair''
               else if elemAt sortedRankCounts 0 = Some 2 then result ''one_pair'' 2 ''One Pair''
               else result ''high_card'' 1 ''High Card''))"

record hand_info =
  cards :: "card list"
  active :: bool

definition determineWinners :: "hand_info list \<Rightarrow> card list \<Rightarrow> nat list" where
  "determineWinners playerHands communityCards =
     (if length playerHands = 0 then []
      else
        (let evaluations =
               map (\<lambda>(index, handInfo).
                      if \<not> active handInfo then (index, - 1)
                      else (index, val (evaluatePokerHand (cards handInfo) communityCards)))
                   (enumerate 0 playerHands);
             maxHandValue = mathMax (map snd evaluations);
             winners = map fst (filter (\<lambda>e. Some (snd e) = maxHandValue) evaluations)
         in winners))"

section \<open>The advisory decision module (poker-ai-decision.js)\<close>

text \<open>
  The game-state object handed to the module, with the fields its decision functions
  read. \<open>None\<close> is a field that is absent (or, for the two arrays, not an array).
  \<open>Math.random()\<close> is an argument: the value the call returns.
\<close>

record game_state =
  difficulty :: "string option"
  statePotSize :: "int option"
  playerBetSize :: "int option"
  botStacks :: "int list option"
  legalActions :: "string list option"

record bot_action =
  botIndex :: int
  actionBias :: "string option"
  confidence :: real

record decision =
  globalPlan :: string
  aggression :: real
  bluffFrequency :: real
  coordination :: real
  botActions :: "bot_action list"

record concrete_action =
  caBotIndex :: int
  caAction :: string
  caConfidence :: real

text \<open>\<open>generateFallbackDecision\<close>, before \<open>JSON.stringify\<close>. \<open>random i\<close>
  is the value of \<open>Math.random()\<close> in the iteration for bot \<open>i\<close>.\<close>

definition generateFallbackDecision :: "(nat \<Rightarrow> real) \<Rightarrow> game_state option \<Rightarrow> decision" where
  "generateFallbackDecision random gameData =
     (let decision = \<lparr>globalPlan = ''pot_control'', aggression = 0.5, bluffFrequency = 0.3,
                       coordination = 0.6, botActions = []\<rparr>
      in case gameData of
           None \<Rightarrow> decision
         | Some g \<Rightarrow>
             (case botStacks g of
                None \<Rightarrow> decision
              | Some stacks \<Rightarrow>
                  (let numBots = length stacks
                   in decision\<lparr>botActions :=
                        map (\<lambda>i. \<lparr>botIndex = int i,
                                  actionBias =
                                    (if difficulty g = Some ''EASY''
                                     then (let randomActions = [''fold'', ''call'', ''raise''];
                                               k = \<lfloor>random i * real (length randomActions)\<rfloor>
                                           in if 0 \<le> k then elemAt randomActions (nat k) else None)
                                     else Some ''call''),
                                  confidence = 0.6\<rparr>)
                            [0..<numBots]\<rparr>)))"

text \<open>The part of \<open>determineConcreteAction\<close> that follows the comment "If not legal,
  pick the closest legal action based on game context": the bias is not in the non-empty
  list \<open>la\<close>.\<close>

definition closestLegalAction :: "real \<Rightarrow> bot_action \<Rightarrow> game_state \<Rightarrow> string list \<Rightarrow> concrete_action" where
  "closestLegalAction random botAction gameState la =
     (let bias = actionBias botAction;
          conf = confidence botAction;
          diff = (case difficulty gameState of
                    None \<Rightarrow> ''NORMAL'' | Some d \<Rightarrow> (if d = [] then ''NORMAL'' else d));
          pot = (case statePotSize gameState of
                   None \<Rightarrow> 100 | Some p \<Rightarrow> (if p = 0 then 100 else p));
          bet = (case playerBetSize gameState of None \<Rightarrow> 0 | Some b \<Rightarrow> b);
          answer = (\<lambda>a c. \<lparr>caBotIndex = botIndex botAction, caAction = a, caConfidence = c\<rparr>);
          fallback = answer (case la of [] \<Rightarrow> ''call'' | first # rest \<Rightarrow> first) 0.5
      in if bias = Some ''raise'' \<and> ''call'' \<in> set la then
           (if diff = ''HARD'' \<and> random > 0.3 then answer ''call'' (min conf 0.9)
            else answer ''call'' (min conf 0.8))
         else if bias = Some ''raise'' \<and> ''fold'' \<in> set la then
           (if diff = ''HARD'' \<and> real_of_int bet < real_of_int pot * 0.5 \<and> ''call'' \<in> set la
            then answer ''call'' (min conf 0.7)
            else answer ''fold'' (max conf 0.3))
         else if bias = Some ''call'' \<and> ''fold'' \<in> set la then
           (if diff = ''HARD'' \<and> real_of_int bet < real_of_int pot * 0.3 \<and> ''call'' \<in> set la
            then answer ''call'' (min conf 0.8)
            else answer ''fold'' (max conf 0.4))
         else if bias = Some ''fold'' \<and> ''call'' \<in> set la then
           (if diff = ''HARD'' \<and> real_of_int bet < real_of_int pot * 0.4
            then answer ''call'' (max conf 0.6)
            else if diff = ''EASY'' then answer ''fold'' conf
            else fallback)
         else fallback)"

definition determineConcreteAction :: "real \<Rightarrow> bot_action \<Rightarrow> game_state \<Rightarrow> concrete_action" where
  "determineConcreteAction random botAction gameState =
     (let safe = \<lparr>caBotIndex = botIndex botAction, caAction = ''call'', caConfidence = 0.5\<rparr>
      in case legalActions gameState of
           None \<Rightarrow> safe
         | Some la \<Rightarrow>
             if length la = 0 then safe
             else
               (case actionBias botAction of
                  None \<Rightarrow> closestLegalAction random botAction gameState la
                | Some bias \<Rightarrow>
                    if bias \<in> set la
                    then \<lparr>caBotIndex = botIndex botAction, caAction = bias,
                          caConfidence = confidence botAction\<rparr>
                    else closestLegalAction random botAction gameState la))"

section \<open>A game used in the examples\<close>

text \<open>The engine that \<open>initializeGame\<close> returns for two bots with starting stacks
  1000 and 100 and a human player with starting stack 300, when the shuffle leaves the
  deck in the order it was built.\<close>

definition exampleGame :: engine where
  "exampleGame =
     \<lparr>bots = [\<lparr>stack = 1000, folded = False, betInCurrentRound = 0, isActive = True\<rparr>,
              \<lparr>stack = 100, folded = False, betInCurrentRound = 0, isActive = True\<rparr>],
      humanPlayer = \<lparr>stack = 300, folded = False, betInCurrentRound = 0, isActive = True\<rparr>,
      currentRound = ''preflop'', potSize = 0, boardCards = [], deck = orderedDeck,
      gameLog =
        [\<lparr>event = ''Deck created with 52 cards and shuffled'', entryRound = ''preflop'',
          entryPotSize = 0\<rparr>,
         \<lparr>event = ''Round state reset for new hand'', entryRound = ''preflop'',
          entryPotSize = 0\<rparr>,
         \<lparr>event = ''Game initialized with players'', entryRound = ''preflop'',
          entryPotSize = 0\<rparr>]\<rparr>"

text \<open>A hand of the example game over two streets: every actor puts in 50 before the
  flop and 20 on the flop, and the caller starts the flop and then the turn.\<close>

definition examplePreflopBets :: engine where
  "examplePreflopBets =
     applyActions exampleGame [(Human, ''raise'', 50), (Bot 0, ''call'', 0), (Bot 1, ''call'', 0)]"

definition exampleFlop :: engine where
  "exampleFlop = fst (startRound examplePreflopBets ''flop'' [])"

definition exampleFlopBets :: engine where
  "exampleFlopBets =
     applyActions exampleFlop [(Human, ''raise'', 20), (Bot 0, ''call'', 0), (Bot 1, ''call'', 0)]"

definition exampleTurn :: engine where
  "exampleTurn = fst (startRound exampleFlopBets ''turn'' (boardCards exampleFlopBets))"

definition exampleAllIn :: engine where
  "exampleAllIn =
     applyActions exampleGame
       [(Human, ''raise'', 100), (Bot 0, ''call'', 0), (Bot 1, ''call'', 0),
        (Human, ''raise'', 200)]"

definition exampleHumanFolded :: engine where
  "exampleHumanFolded =
     applyActions exampleGame [(Human, ''fold'', 0), (Bot 0, ''raise'', 50), (Bot 1, ''call'', 0)]"

definition exampleHeadsUpBots :: engine where
  "exampleHeadsUpBots =
     applyActions exampleGame [(Human, ''fold'', 0), (Bot 0, ''call'', 0), (Bot 1, ''fold'', 0)]"

definition exampleHumanRaised :: engine where
  "exampleHumanRaised = applyActions exampleGame [(Human, ''raise'', 50)]"

text \<open>The example game after \<open>processHumanAction('raise', 10.1)\<close>: the amount is
  positive, at most the stack of 300 and at least the minimum raise of 10, so that
  \<open>validateAction\<close> accepts it.\<close>

definition exampleFractionalRaise :: engine where
  "exampleFractionalRaise = applyActions exampleGame [(Human, ''raise'', tenPointOne)]"

section \<open>Properties of the numbers\<close>

lemma roundEven_of_int: "roundEven (of_int n) = n"
  by (simp add: roundEven_def)

lemma roundEven_nonneg: "0 \<le> y \<Longrightarrow> 0 \<le> roundEven y"
  by (auto simp: roundEven_def Let_def)

lemma ulp_pos: "0 < ulp x"
  by (simp add: ulp_def)

text \<open>Rounding keeps the sign of a number that is not negative.\<close>

lemma fl_nonneg: "0 \<le> x \<Longrightarrow> 0 \<le> fl x"
  using ulp_pos [of x] by (simp add: fl_def roundEven_nonneg)

lemma binade_eq:
  assumes "2 powi k \<le> \<bar>x\<bar>" "\<bar>x\<bar> < 2 powi (k + 1)" "- 1022 \<le> k"
  shows "binade x = k"
proof -
  have "0 < (2::real) powi k" by simp
  with assms(1) have pos: "0 < \<bar>x\<bar>" by linarith
  have "\<lfloor>log 2 \<bar>x\<bar>\<rfloor> = k"
    using assms(1,2) pos by (simp add: floor_log_eq_powr_iff powr_real_of_int' flip: of_int_add)
  then show ?thesis using assms(3) by (simp add: binade_def)
qed

lemma binade_of_int:
  assumes "n \<noteq> 0" "\<bar>n\<bar> < 2 ^ 53"
  shows "0 \<le> binade (of_int n) \<and> binade (of_int n) \<le> 52"
proof -
  have one: "1 \<le> \<bar>real_of_int n\<bar>" using assms(1) by (simp flip: of_int_abs)
  then have "0 \<le> log 2 \<bar>real_of_int n\<bar>" by simp
  then have lo: "0 \<le> \<lfloor>log 2 \<bar>real_of_int n\<bar>\<rfloor>" by simp
  have "\<bar>real_of_int n\<bar> < 2 ^ 53"
    using assms(2) by (metis of_int_abs of_int_less_numeral_power_cancel_iff)
  then have "\<bar>real_of_int n\<bar> < 2 powr 53" by simp
  then have "log 2 \<bar>real_of_int n\<bar> < 53"
    using one by (subst log_less_iff) auto
  then have "\<lfloor>log 2 \<bar>real_of_int n\<bar>\<rfloor> < 53" by (simp add: floor_less_iff)
  with lo show ?thesis by (simp add: binade_def)
qed

text \<open>A whole number of magnitude below \<open>2^53\<close> is a number of the format: rounding
  leaves it as it is.\<close>

lemma fl_of_int:
  assumes "\<bar>n\<bar> < 2 ^ 53"
  shows "fl (of_int n) = of_int n"
proof (cases "n = 0")
  case True
  then show ?thesis by (simp add: fl_def)
next
  case False
  define k where "k = binade (of_int n)"
  from binade_of_int [OF False assms] have k: "0 \<le> k" "k \<le> 52" by (simp_all add: k_def)
  define j where "j = nat (52 - k)"
  have kj: "k - 52 = - int j" using k by (simp add: j_def)
  have u: "ulp (of_int n) = 1 / 2 ^ j"
    by (simp add: ulp_def kj power_int_minus field_simps flip: k_def)
  have "real_of_int n / ulp (of_int n) = of_int (n * 2 ^ j)"
    by (simp add: u)
  then have "roundEven (real_of_int n / ulp (of_int n)) = n * 2 ^ j"
    by (simp only: roundEven_of_int)
  then show ?thesis
    using False by (simp add: fl_def u)
qed

lemma fl_Ints:
  assumes "x \<in> \<int>" "\<bar>x\<bar> < 2 ^ 53"
  shows "fl x = x"
proof -
  from assms(1) obtain n where n: "x = of_int n" by (rule Ints_cases)
  with assms(2) have "\<bar>real_of_int n\<bar> < 2 ^ 53" by simp
  then have "\<bar>n\<bar> < 2 ^ 53"
    by (metis of_int_abs of_int_less_numeral_power_cancel_iff)
  then show ?thesis by (simp add: n fl_of_int)
qed

lemma fl_numeral:
  "numeral k < (9007199254740992 :: int) \<Longrightarrow> fl (numeral k) = numeral k"
  "numeral k < (9007199254740992 :: int) \<Longrightarrow> fl (- numeral k) = - numeral k"
  "fl 0 = 0" "fl 1 = 1"
  using fl_of_int [of "numeral k"] fl_of_int [of "- numeral k"] fl_of_int [of 0] fl_of_int [of 1]
  by simp_all

lemma fl_eval:
  assumes "x \<noteq> 0" "2 powi k \<le> \<bar>x\<bar>" "\<bar>x\<bar> < 2 powi (k + 1)" "- 1022 \<le> k"
  shows "fl x = 2 powi (k - 52) * of_int (roundEven (x / 2 powi (k - 52)))"
  using assms(1) binade_eq [OF assms(2-4)] by (simp add: fl_def ulp_def)

text \<open>\<open>tenPointOne\<close> is a number of the format, and the one nearest to 10.1.\<close>

lemma fl_tenPointOne: "fl tenPointOne = tenPointOne" "fl (101 / 10) = tenPointOne"
proof -
  have "fl tenPointOne = 2 powi (3 - 52) * of_int (roundEven (tenPointOne / 2 powi (3 - 52)))"
    by (rule fl_eval) (simp_all add: tenPointOne_def)
  also have "\<dots> = tenPointOne"
    by (simp add: tenPointOne_def roundEven_def power_int_minus)
  finally show "fl tenPointOne = tenPointOne" .
  have "fl (101 / 10) = 2 powi (3 - 52) * of_int (roundEven ((101 / 10) / 2 powi (3 - 52)))"
    by (rule fl_eval) simp_all
  also have "\<dots> = tenPointOne"
    by (simp add: tenPointOne_def roundEven_def power_int_minus)
  finally show "fl (101 / 10) = tenPointOne" .
qed

lemma fl_300_minus_tenPointOne:
  "fl (300 - tenPointOne) = 5099974734276198 / 17592186044416"
proof -
  have "fl (300 - tenPointOne)
          = 2 powi (8 - 52) * of_int (roundEven ((300 - tenPointOne) / 2 powi (8 - 52)))"
    by (rule fl_eval) (simp_all add: tenPointOne_def)
  also have "\<dots> = 5099974734276198 / 17592186044416"
    by (simp add: tenPointOne_def roundEven_def power_int_minus)
  finally show ?thesis .
qed

lemma fl_decrease:
  "fl (300 - 5099974734276198 / 17592186044416) = 177681079048602 / 17592186044416"
proof -
  have "fl (300 - 5099974734276198 / 17592186044416)
          = 2 powi (3 - 52) * of_int (roundEven ((300 - 5099974734276198 / 17592186044416) / 2 powi (3 - 52)))"
    by (rule fl_eval) simp_all
  also have "\<dots> = 177681079048602 / 17592186044416"
    by (simp add: roundEven_def power_int_minus)
  finally show ?thesis .
qed

section \<open>Properties of the engine\<close>

subsection \<open>Pot accounting\<close>

lemma sum_list_map_update:
  fixes f :: "'a \<Rightarrow> real"
  shows "i < length xs \<Longrightarrow> sum_list (map f (xs[i := y])) = sum_list (map f xs) - f (xs ! i) + f y"
  by (induction xs arbitrary: i) (auto split: nat.splits)

lemma sum_list_map_nonneg:
  fixes f :: "'a \<Rightarrow> real"
  shows "\<forall>x \<in> set xs. 0 \<le> f x \<Longrightarrow> 0 \<le> sum_list (map f xs)"
  by (induction xs) auto

lemma nth_le_sum_list:
  fixes f :: "'a \<Rightarrow> real"
  shows "\<forall>x \<in> set xs. 0 \<le> f x \<Longrightarrow> i < length xs \<Longrightarrow> f (xs ! i) \<le> sum_list (map f xs)"
proof (induction xs arbitrary: i)
  case Nil
  then show ?case by simp
next
  case (Cons a xs)
  have rest: "0 \<le> sum_list (map f xs)" using Cons.prems(1) by (intro sum_list_map_nonneg) simp
  have a: "0 \<le> f a" using Cons.prems(1) by simp
  show ?case
  proof (cases i)
    case 0
    with rest show ?thesis by simp
  next
    case (Suc j)
    with Cons.prems have "f (xs ! j) \<le> sum_list (map f xs)" by (intro Cons.IH) simp_all
    with a Suc show ?thesis by simp
  qed
qed

lemma totalStacks_setPlayer:
  assumes "getPlayer s p = Some pl"
  shows "totalStacks (setPlayer s p pl') = totalStacks s - stack pl + stack pl'"
  using assms
  by (cases p) (auto simp: getPlayer_def setPlayer_def totalStacks_def sum_list_map_update split: if_splits)

lemma stacksNonNegative_setPlayer:
  assumes "stacksNonNegative s" "0 \<le> stack pl'"
  shows "stacksNonNegative (setPlayer s p pl')"
proof (cases p)
  case Human
  with assms show ?thesis by (simp add: stacksNonNegative_def setPlayer_def)
next
  case (Bot i)
  have "set ((bots s)[i := pl']) \<subseteq> insert pl' (set (bots s))" by (rule set_update_subset_insert)
  with assms Bot show ?thesis
    by (auto simp: stacksNonNegative_def setPlayer_def list_all_iff)
qed

lemma length_bots_setPlayer: "length (bots (setPlayer s p pl')) = length (bots s)"
  by (cases p) (simp_all add: setPlayer_def)

lemma potSize_setPlayer: "potSize (setPlayer s p pl') = potSize s"
  by (cases p) (simp_all add: setPlayer_def)

lemma stacksNonNegative_potSize: "stacksNonNegative (s\<lparr>potSize := x\<rparr>) = stacksNonNegative s"
  by (simp add: stacksNonNegative_def)

lemma totalStacks_potSize: "totalStacks (s\<lparr>potSize := x\<rparr>) = totalStacks s"
  by (simp add: totalStacks_def)

lemma getPlayer_nonneg:
  "stacksNonNegative s \<Longrightarrow> getPlayer s p = Some pl \<Longrightarrow> 0 \<le> stack pl"
  by (cases p) (auto simp: stacksNonNegative_def getPlayer_def list_all_iff split: if_splits)

text \<open>One case of the switch keeps the number of bots and keeps the stacks
  non-negative, whatever the numbers are: the chips taken from a stack are at most the
  stack, and rounding keeps the sign of the difference.\<close>

lemma applySwitch_nonneg:
  assumes "applySwitch s p act amt = Inr s'"
  shows "length (bots s') = length (bots s)"
    and "stacksNonNegative s \<Longrightarrow> stacksNonNegative s'"
  using assms
  by (auto simp: applySwitch_def Let_def length_bots_setPlayer stacksNonNegative_potSize
        intro!: stacksNonNegative_setPlayer fl_nonneg dest: getPlayer_nonneg
        split: if_splits option.splits)

lemma applyAction_cases:
  "(\<exists>s'. applySwitch s p act amt = Inr s' \<and> fst (applyAction s p act amt) = s')
   \<or> (\<exists>e. fst (applyAction s p act amt) = logEvent s e)"
  by (auto simp: applyAction_def applyTry_def split: sum.splits option.splits)

lemma applyAction_nonneg:
  shows "length (bots (fst (applyAction s p act amt))) = length (bots s)"
    and "stacksNonNegative s \<Longrightarrow> stacksNonNegative (fst (applyAction s p act amt))"
  using applyAction_cases [of s p act amt]
  by (auto simp: logEvent_def stacksNonNegative_def dest: applySwitch_nonneg)

lemma applyActions_nonneg:
  "length (bots (applyActions s calls)) = length (bots s)
   \<and> (stacksNonNegative s \<longrightarrow> stacksNonNegative (applyActions s calls))"
proof (induction calls arbitrary: s)
  case Nil
  show ?case by simp
next
  case (Cons c calls)
  obtain p act amt where c: "c = (p, act, amt)" by (cases c) auto
  show ?case
    using Cons.IH [of "fst (applyAction s p act amt)"] applyAction_nonneg [of s p act amt]
    by (simp add: c)
qed

subsection \<open>Whole chips\<close>

lemma wholeChips_getPlayer:
  "wholeChipState s \<Longrightarrow> getPlayer s p = Some pl \<Longrightarrow> wholeChips pl"
  by (cases p) (auto simp: wholeChipState_def getPlayer_def list_all_iff split: if_splits)

lemma wholeChips_stack_le_total:
  assumes "wholeChipState s" "getPlayer s p = Some pl"
  shows "stack pl \<le> totalStacks s"
proof (cases p)
  case Human
  have "0 \<le> sum_list (map stack (bots s))"
    using assms(1) by (intro sum_list_map_nonneg) (auto simp: wholeChipState_def wholeChips_def list_all_iff)
  with Human assms(2) show ?thesis by (simp add: getPlayer_def totalStacks_def)
next
  case (Bot i)
  with assms(2) have i: "i < length (bots s)" "pl = bots s ! i"
    by (auto simp: getPlayer_def split: if_splits)
  have "\<forall>b \<in> set (bots s). 0 \<le> stack b"
    using assms(1) by (auto simp: wholeChipState_def wholeChips_def list_all_iff)
  then have "stack (bots s ! i) \<le> sum_list (map stack (bots s))"
    using i(1) by (rule nth_le_sum_list)
  moreover have "0 \<le> stack (humanPlayer s)"
    using assms(1) by (simp add: wholeChipState_def wholeChips_def)
  ultimately show ?thesis using i(2) by (simp add: totalStacks_def)
qed

lemma wholeChipState_setPlayer:
  assumes "wholeChipState s" "wholeChips pl'" "getPlayer s p = Some pl"
    and "x \<in> \<int>" "0 \<le> x" "x + (totalStacks s - stack pl + stack pl') < 2 ^ 53"
  shows "wholeChipState ((setPlayer s p pl')\<lparr>potSize := x\<rparr>)"
proof -
  have t: "totalStacks ((setPlayer s p pl')\<lparr>potSize := x\<rparr>) = totalStacks s - stack pl + stack pl'"
    using assms(3) by (simp add: totalStacks_potSize totalStacks_setPlayer)
  have "set ((bots s)[i := pl']) \<subseteq> insert pl' (set (bots s))" for i
    by (rule set_update_subset_insert)
  then have "wholeChips (humanPlayer (setPlayer s p pl'))
             \<and> list_all wholeChips (bots (setPlayer s p pl'))"
    using assms(1,2) by (cases p) (auto simp: wholeChipState_def setPlayer_def list_all_iff)
  then show ?thesis
    using assms(4-6) t by (simp add: wholeChipState_def)
qed

text \<open>Moving \<open>m\<close> whole chips, at most the stack, from a player's stack to the
  player's bet and to the pot is exact.\<close>

lemma move_whole_chips:
  assumes inv: "wholeChipState s" and gp: "getPlayer s p = Some pl"
    and m: "m \<in> \<int>" "0 < m" "m \<le> stack pl"
  defines "s' \<equiv> (setPlayer s p (pl\<lparr>stack := fl (stack pl - m),
                                      betInCurrentRound := fl (betInCurrentRound pl + m)\<rparr>))
                 \<lparr>potSize := fl (potSize s + m)\<rparr>"
  shows "wholeChipState s'" and "potSize s' + totalStacks s' = potSize s + totalStacks s"
proof -
  have pl: "wholeChips pl" using inv gp by (rule wholeChips_getPlayer)
  have le: "stack pl \<le> totalStacks s" using inv gp by (rule wholeChips_stack_le_total)
  have pot: "potSize s \<in> \<int>" "0 \<le> potSize s" "potSize s + totalStacks s < 2 ^ 53"
    using inv by (simp_all add: wholeChipState_def)
  have st: "stack pl \<in> \<int>" "0 \<le> stack pl" "betInCurrentRound pl \<in> \<int>"
    "0 \<le> betInCurrentRound pl" "stack pl + betInCurrentRound pl < 2 ^ 53"
    using pl by (simp_all add: wholeChips_def)
  have e1: "fl (stack pl - m) = stack pl - m"
    using st m by (intro fl_Ints) auto
  have e2: "fl (betInCurrentRound pl + m) = betInCurrentRound pl + m"
    using st m by (intro fl_Ints) auto
  have e3: "fl (potSize s + m) = potSize s + m"
    using pot m le by (intro fl_Ints) auto
  have w: "wholeChips (pl\<lparr>stack := stack pl - m, betInCurrentRound := betInCurrentRound pl + m\<rparr>)"
    using st m by (simp add: wholeChips_def)
  show "wholeChipState s'"
    unfolding s'_def e1 e2 e3
    using inv w gp pot m le by (intro wholeChipState_setPlayer) auto
  show "potSize s' + totalStacks s' = potSize s + totalStacks s"
    unfolding s'_def e1 e2 e3
    using gp by (simp add: totalStacks_potSize totalStacks_setPlayer)
qed

lemma fold_highest_mem:
  "fold (\<lambda>bot highestBet.
           if \<not> folded bot \<and> betInCurrentRound bot > highestBet
           then betInCurrentRound bot else highestBet) bs h
   \<in> insert h (betInCurrentRound ` set bs)"
  by (induction bs arbitrary: h) (auto simp: image_iff)

lemma highest_whole:
  assumes "wholeChipState s"
  defines "hb \<equiv> (let highestBet = highestBotBet (bots s)
                  in if \<not> folded (humanPlayer s) \<and> betInCurrentRound (humanPlayer s) > highestBet
                     then betInCurrentRound (humanPlayer s) else highestBet)"
  shows "hb \<in> \<int> \<and> 0 \<le> hb \<and> hb < 2 ^ 53"
proof -
  have bots: "\<forall>b \<in> set (bots s). betInCurrentRound b \<in> \<int> \<and> 0 \<le> betInCurrentRound b
                \<and> betInCurrentRound b < 2 ^ 53"
    using assms(1) by (auto simp: wholeChipState_def wholeChips_def list_all_iff)
  have hum: "betInCurrentRound (humanPlayer s) \<in> \<int> \<and> 0 \<le> betInCurrentRound (humanPlayer s)
                \<and> betInCurrentRound (humanPlayer s) < 2 ^ 53"
    using assms(1) by (auto simp: wholeChipState_def wholeChips_def)
  have "highestBotBet (bots s) \<in> insert 0 (betInCurrentRound ` set (bots s))"
    unfolding highestBotBet_def by (rule fold_highest_mem)
  then have "highestBotBet (bots s) \<in> \<int> \<and> 0 \<le> highestBotBet (bots s)
               \<and> highestBotBet (bots s) < 2 ^ 53"
    using bots by auto
  with hum show ?thesis by (simp add: hb_def Let_def)
qed

text \<open>With whole chips the amount owed is the exact difference to the highest bet, a
  whole number.\<close>

lemma calculateCallAmount_whole:
  assumes "wholeChipState s" "wholeChips pl"
  shows "calculateCallAmount s pl \<in> \<int>"
proof -
  define hb where "hb = (let highestBet = highestBotBet (bots s)
                  in if \<not> folded (humanPlayer s) \<and> betInCurrentRound (humanPlayer s) > highestBet
                     then betInCurrentRound (humanPlayer s) else highestBet)"
  have hb: "hb \<in> \<int> \<and> 0 \<le> hb \<and> hb < 2 ^ 53"
    unfolding hb_def using assms(1) by (rule highest_whole)
  have pl: "betInCurrentRound pl \<in> \<int>" "0 \<le> betInCurrentRound pl" "betInCurrentRound pl < 2 ^ 53"
    using assms(2) by (auto simp: wholeChips_def)
  have "fl (hb - betInCurrentRound pl) = hb - betInCurrentRound pl"
    using hb pl by (intro fl_Ints) auto
  moreover have "calculateCallAmount s pl = max 0 (fl (hb - betInCurrentRound pl))"
    by (simp add: calculateCallAmount_def hb_def Let_def)
  ultimately show ?thesis
    using hb pl by (simp add: max_def)
qed

lemma applySwitch_whole:
  assumes "applySwitch s p act amt = Inr s'" "wholeChipState s" "amt \<in> \<int>"
  shows "wholeChipState s' \<and> potSize s' + totalStacks s' = potSize s + totalStacks s"
proof -
  consider (fold) "act = ''fold''" | (call) "act = ''call''" | (raise) "act = ''raise''"
    using assms(1) by (auto simp: applySwitch_def split: if_splits)
  then show ?thesis
  proof cases
    case fold
    then obtain pl where gp: "getPlayer s p = Some pl"
      and s': "s' = setPlayer s p (pl\<lparr>folded := True, isActive := False\<rparr>)"
      using assms(1) by (auto simp: applySwitch_def split: option.splits)
    have pl: "wholeChips pl" using assms(2) gp by (rule wholeChips_getPlayer)
    have w: "wholeChips (pl\<lparr>folded := True, isActive := False\<rparr>)"
      using pl by (simp add: wholeChips_def)
    have "wholeChipState ((setPlayer s p (pl\<lparr>folded := True, isActive := False\<rparr>))\<lparr>potSize := potSize s\<rparr>)"
      using assms(2) w gp by (rule wholeChipState_setPlayer) (use assms(2) in \<open>simp_all add: wholeChipState_def\<close>)
    moreover have "(setPlayer s p (pl\<lparr>folded := True, isActive := False\<rparr>))\<lparr>potSize := potSize s\<rparr> = s'"
      unfolding s' by (cases p) (simp_all add: setPlayer_def)
    ultimately show ?thesis
      using gp by (simp add: s' totalStacks_setPlayer potSize_setPlayer)
  next
    case call
    then obtain pl where gp: "getPlayer s p = Some pl"
      using assms(1) by (auto simp: applySwitch_def split: option.splits)
    have pl: "wholeChips pl" using assms(2) gp by (rule wholeChips_getPlayer)
    define m where "m = min (calculateCallAmount s pl) (stack pl)"
    have mi: "m \<in> \<int>"
      using calculateCallAmount_whole [OF assms(2) pl] pl by (simp add: m_def min_def wholeChips_def)
    show ?thesis
    proof (cases "0 < m")
      case True
      then have "s' = (setPlayer s p (pl\<lparr>stack := fl (stack pl - m),
                                           betInCurrentRound := fl (betInCurrentRound pl + m)\<rparr>))
                        \<lparr>potSize := fl (potSize s + m)\<rparr>"
        using assms(1) call gp by (simp add: applySwitch_def Let_def m_def)
      then show ?thesis
        using move_whole_chips [OF assms(2) gp mi True] by (simp add: m_def)
    next
      case False
      then have "s' = s" using assms(1) call gp by (auto simp: applySwitch_def Let_def m_def)
      then show ?thesis using assms(2) by simp
    qed
  next
    case raise
    then obtain pl where gp: "getPlayer s p = Some pl"
      using assms(1) by (auto simp: applySwitch_def split: option.splits)
    have pl: "wholeChips pl" using assms(2) gp by (rule wholeChips_getPlayer)
    define m where "m = min amt (stack pl)"
    have mi: "m \<in> \<int>"
      using assms(3) pl by (simp add: m_def min_def wholeChips_def)
    show ?thesis
    proof (cases "0 < m")
      case True
      then have "s' = (setPlayer s p (pl\<lparr>stack := fl (stack pl - m),
                                           betInCurrentRound := fl (betInCurrentRound pl + m)\<rparr>))
                        \<lparr>potSize := fl (potSize s + m)\<rparr>"
        using assms(1) raise gp by (simp add: applySwitch_def Let_def m_def)
      then show ?thesis
        using move_whole_chips [OF assms(2) gp mi True] by (simp add: m_def)
    next
      case False
      then have "s' = s" using assms(1) raise gp by (auto simp: applySwitch_def Let_def m_def)
      then show ?thesis using assms(2) by simp
    qed
  qed
qed

lemma applyAction_whole:
  assumes "wholeChipState s" "amt \<in> \<int>"
  shows "wholeChipState (fst (applyAction s p act amt))
       \<and> potSize (fst (applyAction s p act amt)) + totalStacks (fst (applyAction s p act amt))
           = potSize s + totalStacks s"
  using applyAction_cases [of s p act amt] assms
  by (auto simp: logEvent_def totalStacks_def wholeChipState_def dest: applySwitch_whole)

lemma applyActions_whole:
  assumes "wholeChipState s" "\<forall>c \<in> set calls. snd (snd c) \<in> \<int>"
  shows "wholeChipState (applyActions s calls)
       \<and> potSize (applyActions s calls) + totalStacks (applyActions s calls)
           = potSize s + totalStacks s"
  using assms
proof (induction calls arbitrary: s)
  case Nil
  then show ?case by simp
next
  case (Cons c calls)
  obtain p act amt where c: "c = (p, act, amt)" by (cases c) auto
  have a: "amt \<in> \<int>" using Cons.prems(2) by (simp add: c)
  note step = applyAction_whole [OF Cons.prems(1) a, of p act]
  have "wholeChipState (applyActions (fst (applyAction s p act amt)) calls)
        \<and> potSize (applyActions (fst (applyAction s p act amt)) calls)
            + totalStacks (applyActions (fst (applyAction s p act amt)) calls)
          = potSize (fst (applyAction s p act amt)) + totalStacks (fst (applyAction s p act amt))"
    using step Cons.prems(2) by (intro Cons.IH) simp_all
  then show ?case using step by (simp add: c)
qed

lemma sum_list_zip_diff:
  fixes f :: "'a \<Rightarrow> real"
  shows "length xs = length ys \<Longrightarrow>
    sum_list (map (\<lambda>(a, b). f a - f b) (zip xs ys)) = sum_list (map f xs) - sum_list (map f ys)"
  by (induction xs ys rule: list_induct2) auto

lemma contributions_eq:
  "length (bots s0) = length (bots s) \<Longrightarrow> contributions s0 s = totalStacks s0 - totalStacks s"
  by (simp add: contributions_def totalStacks_def sum_list_zip_diff)

lemma resetRoundState_fresh:
  "potSize (resetRoundState shuffled s) = 0
   \<and> betInCurrentRound (humanPlayer (resetRoundState shuffled s)) = 0
   \<and> list_all (\<lambda>b. betInCurrentRound b = 0) (bots (resetRoundState shuffled s))
   \<and> map stack (bots (resetRoundState shuffled s)) = map stack (bots s)
   \<and> stack (humanPlayer (resetRoundState shuffled s)) = stack (humanPlayer s)"
  by (simp add: resetRoundState_def logEvent_def Let_def list_all_iff comp_def)

text \<open>A freshly reset hand with whole, non-negative stacks that sum to less than
  \<open>2^53\<close> holds whole chips.\<close>

lemma fresh_wholeChipState:
  assumes "potSize s = 0"
    and "betInCurrentRound (humanPlayer s) = 0"
    and "\<forall>b \<in> set (bots s). betInCurrentRound b = 0"
    and "0 \<le> stack (humanPlayer s)"
    and "\<forall>b \<in> set (bots s). 0 \<le> stack b"
    and "stack (humanPlayer s) \<in> \<int>"
    and "\<forall>b \<in> set (bots s). stack b \<in> \<int>"
    and "totalStacks s < 2 ^ 53"
  shows "wholeChipState s"
proof -
  have sum: "0 \<le> sum_list (map stack (bots s))"
    using assms(5) by (rule sum_list_map_nonneg)
  have h: "stack (humanPlayer s) < 2 ^ 53"
    using sum assms(8) by (simp add: totalStacks_def)
  have b: "stack x < 2 ^ 53" if "x \<in> set (bots s)" for x
  proof -
    from that obtain i where i: "i < length (bots s)" "x = bots s ! i"
      by (auto simp: in_set_conv_nth)
    have "stack (bots s ! i) \<le> sum_list (map stack (bots s))"
      using assms(5) i(1) by (rule nth_le_sum_list)
    with assms(4,8) i(2) show ?thesis by (simp add: totalStacks_def)
  qed
  show ?thesis
    using assms h b by (auto simp: wholeChipState_def wholeChips_def list_all_iff)
qed

text \<open>
  C1, amended. From a freshly reset hand (pot 0, every bet of the street 0, no negative
  stack), after any sequence of \<open>applyAction\<close> calls whose actions are fold, call or
  raise, no stack is negative and the number of bots is unchanged; and when every stack
  and every amount passed is a whole number and the stacks sum to less than \<open>2^53\<close>,
  the pot equals the sum over all actors of the amount by which the actor's stack has
  gone down.
\<close>

theorem pot_equals_contributions:
  assumes "potSize s = 0"
    and "betInCurrentRound (humanPlayer s) = 0"
    and "\<forall>b \<in> set (bots s). betInCurrentRound b = 0"
    and "0 \<le> stack (humanPlayer s)"
    and "\<forall>b \<in> set (bots s). 0 \<le> stack b"
    and "\<forall>c \<in> set calls. fst (snd c) \<in> {''fold'', ''call'', ''raise''}"
  shows "0 \<le> stack (humanPlayer (applyActions s calls))
       \<and> (\<forall>b \<in> set (bots (applyActions s calls)). 0 \<le> stack b)
       \<and> length (bots (applyActions s calls)) = length (bots s)
       \<and> (stack (humanPlayer s) \<in> \<int> \<and> (\<forall>b \<in> set (bots s). stack b \<in> \<int>)
            \<and> totalStacks s < 2 ^ 53 \<and> (\<forall>c \<in> set calls. snd (snd c) \<in> \<int>)
          \<longrightarrow> potSize (applyActions s calls) = contributions s (applyActions s calls))"
proof -
  have nn: "stacksNonNegative s"
    using assms(4,5) by (simp add: stacksNonNegative_def list_all_iff)
  note keep = applyActions_nonneg [of s calls]
  from keep have len: "length (bots (applyActions s calls)) = length (bots s)" by simp
  from keep nn have "stacksNonNegative (applyActions s calls)" by simp
  then have pos: "0 \<le> stack (humanPlayer (applyActions s calls))
                  \<and> (\<forall>b \<in> set (bots (applyActions s calls)). 0 \<le> stack b)"
    by (simp add: stacksNonNegative_def list_all_iff)
  have eq: "potSize (applyActions s calls) = contributions s (applyActions s calls)"
    if whole: "stack (humanPlayer s) \<in> \<int>" "\<forall>b \<in> set (bots s). stack b \<in> \<int>"
      "totalStacks s < 2 ^ 53" "\<forall>c \<in> set calls. snd (snd c) \<in> \<int>"
  proof -
    have "wholeChipState s"
      using assms(1-5) whole(1-3) by (rule fresh_wholeChipState)
    from applyActions_whole [OF this whole(4)] assms(1)
    have "potSize (applyActions s calls) = totalStacks s - totalStacks (applyActions s calls)"
      by simp
    with len show ?thesis by (simp add: contributions_eq)
  qed
  from pos len eq show ?thesis by blast
qed

subsection \<open>Unknown actions\<close>

text \<open>
  C9. For every action string other than fold, call and raise, \<open>applyAction\<close>
  returns a record with \<open>success = false\<close> that carries the error message, and the
  engine after the call differs from the engine before it in the game log only: the pot
  and every player's stack, bet and flags are as they were.
\<close>

theorem applyAction_unknown:
  assumes "act \<notin> {''fold'', ''call'', ''raise''}"
  shows "success (snd (applyAction s p act amt)) = False
       \<and> action (snd (applyAction s p act amt)) = act
       \<and> error (snd (applyAction s p act amt)) = Some (''Unknown action: '' @ act)
       \<and> potSize (fst (applyAction s p act amt)) = potSize s
       \<and> humanPlayer (fst (applyAction s p act amt)) = humanPlayer s
       \<and> bots (fst (applyAction s p act amt)) = bots s
       \<and> getPlayer (fst (applyAction s p act amt)) p = getPlayer s p
       \<and> (\<exists>e. fst (applyAction s p act amt) = logEvent s e)"
proof -
  from assms have sw: "applySwitch s p act amt = Inl (Error (''Unknown action: '' @ act))"
    by (simp add: applySwitch_def)
  then have "applyAction s p act amt =
      (logEvent s (''Error applying action '' @ act @ '': '' @ ''Unknown action: '' @ act),
       \<lparr>success = False, action = act, amount = None, remainingStack = None,
        error = Some (''Unknown action: '' @ act)\<rparr>)"
    by (simp add: applyAction_def applyTry_def)
  then show ?thesis
    by (auto simp: logEvent_def getPlayer_def split: player_ref.splits)
qed

theorem applyAction_unknown_witness:
  "success (snd (applyAction
      \<lparr>bots = [\<lparr>stack = 100, folded = False, betInCurrentRound = 0, isActive = True\<rparr>],
       humanPlayer = \<lparr>stack = 100, folded = False, betInCurrentRound = 0, isActive = True\<rparr>,
       currentRound = ''preflop'', potSize = 0, boardCards = [], deck = [], gameLog = []\<rparr>
      Human ''check'' 0)) = False"
  using applyAction_unknown [of "''check''" _ Human 0] by simp


subsection \<open>The example game\<close>

lemmas engine_defs = applyAction_def applyTry_def applySwitch_def getPlayer_def setPlayer_def
  calculateCallAmount_def highestBotBet_def Let_def fl_numeral

lemmas street_defs = startRound_def updatePotSize_def dealFlop_def dealTurn_def dealOne_def
  burn_def logEvent_def Let_def fl_numeral

lemma length_orderedDeck: "length orderedDeck = 52"
  by (simp add: orderedDeck_def)

lemma initializeGame_example:
  "initializeGame orderedDeck [Some 1000, Some 100] (Some 300) = Inr exampleGame"
  by (simp add: initializeGame_def resetRoundState_def logEvent_def startingStackOr_def
        ensureValidStack_def exampleGame_def Let_def length_orderedDeck)

lemma exampleAllIn_eq:
  "exampleAllIn =
     exampleGame\<lparr>bots := [\<lparr>stack = 900, folded = False, betInCurrentRound = 100, isActive = True\<rparr>,
                           \<lparr>stack = 0, folded = False, betInCurrentRound = 100, isActive = True\<rparr>],
                 humanPlayer := \<lparr>stack = 0, folded = False, betInCurrentRound = 300, isActive = True\<rparr>,
                 potSize := 500\<rparr>"
  by (simp add: exampleAllIn_def engine_defs exampleGame_def)

lemma exampleHumanFolded_eq:
  "exampleHumanFolded =
     exampleGame\<lparr>bots := [\<lparr>stack = 950, folded = False, betInCurrentRound = 50, isActive = True\<rparr>,
                           \<lparr>stack = 50, folded = False, betInCurrentRound = 50, isActive = True\<rparr>],
                 humanPlayer := \<lparr>stack = 300, folded = True, betInCurrentRound = 0, isActive = False\<rparr>,
                 potSize := 100\<rparr>"
  by (simp add: exampleHumanFolded_def engine_defs exampleGame_def)

lemma exampleHeadsUpBots_eq:
  "exampleHeadsUpBots =
     exampleGame\<lparr>bots := [\<lparr>stack = 1000, folded = False, betInCurrentRound = 0, isActive = True\<rparr>,
                           \<lparr>stack = 100, folded = True, betInCurrentRound = 0, isActive = False\<rparr>],
                 humanPlayer := \<lparr>stack = 300, folded = True, betInCurrentRound = 0, isActive = False\<rparr>\<rparr>"
  by (simp add: exampleHeadsUpBots_def engine_defs exampleGame_def)

lemma exampleHumanRaised_eq:
  "exampleHumanRaised =
     exampleGame\<lparr>humanPlayer := \<lparr>stack = 250, folded = False, betInCurrentRound = 50, isActive = True\<rparr>,
                 potSize := 50\<rparr>"
  by (simp add: exampleHumanRaised_def engine_defs exampleGame_def)

lemma examplePreflopBets_eq:
  "examplePreflopBets =
     exampleGame\<lparr>bots := [\<lparr>stack = 950, folded = False, betInCurrentRound = 50, isActive = True\<rparr>,
                           \<lparr>stack = 50, folded = False, betInCurrentRound = 50, isActive = True\<rparr>],
                 humanPlayer := \<lparr>stack = 250, folded = False, betInCurrentRound = 50, isActive = True\<rparr>,
                 potSize := 150\<rparr>"
  by (simp add: examplePreflopBets_def engine_defs exampleGame_def)

lemma exampleFlop_fields:
  "potSize exampleFlop = 150"
  "bots exampleFlop = [\<lparr>stack = 950, folded = False, betInCurrentRound = 0, isActive = True\<rparr>,
                       \<lparr>stack = 50, folded = False, betInCurrentRound = 0, isActive = True\<rparr>]"
  "humanPlayer exampleFlop = \<lparr>stack = 250, folded = False, betInCurrentRound = 0, isActive = True\<rparr>"
  "boardCards exampleFlop = [\<lparr>suit = Hearts, rank = R3\<rparr>, \<lparr>suit = Hearts, rank = R4\<rparr>,
                             \<lparr>suit = Hearts, rank = R5\<rparr>]"
  "deck exampleFlop = drop 4 orderedDeck"
  "snd (startRound examplePreflopBets ''flop'' []) = None"
  unfolding exampleFlop_def examplePreflopBets_eq
  by (simp_all add: street_defs exampleGame_def orderedDeck_def)

lemma exampleFlopBets_fields:
  "potSize exampleFlopBets = 210"
  "bots exampleFlopBets = [\<lparr>stack = 930, folded = False, betInCurrentRound = 20, isActive = True\<rparr>,
                           \<lparr>stack = 30, folded = False, betInCurrentRound = 20, isActive = True\<rparr>]"
  "humanPlayer exampleFlopBets = \<lparr>stack = 230, folded = False, betInCurrentRound = 20, isActive = True\<rparr>"
  "boardCards exampleFlopBets = boardCards exampleFlop"
  "deck exampleFlopBets = deck exampleFlop"
  unfolding exampleFlopBets_def
  by (simp_all add: engine_defs exampleFlop_fields)

theorem pot_equals_contributions_witness:
  "potSize exampleAllIn = contributions exampleGame exampleAllIn
   \<and> potSize exampleAllIn = 500
   \<and> 0 \<le> stack (humanPlayer exampleAllIn)
   \<and> length (bots exampleAllIn) = length (bots exampleGame)"
proof -
  have h: "potSize exampleGame = 0" "betInCurrentRound (humanPlayer exampleGame) = 0"
    "\<forall>b \<in> set (bots exampleGame). betInCurrentRound b = 0"
    "0 \<le> stack (humanPlayer exampleGame)" "\<forall>b \<in> set (bots exampleGame). 0 \<le> stack b"
    by (simp_all add: exampleGame_def)
  have k: "\<forall>c \<in> set [(Human, ''raise'', 100 :: real), (Bot 0, ''call'', 0), (Bot 1, ''call'', 0),
                       (Human, ''raise'', 200)].
             fst (snd c) \<in> {''fold'', ''call'', ''raise''}"
    by simp
  have w: "stack (humanPlayer exampleGame) \<in> \<int> \<and> (\<forall>b \<in> set (bots exampleGame). stack b \<in> \<int>)
           \<and> totalStacks exampleGame < 2 ^ 53
           \<and> (\<forall>c \<in> set [(Human, ''raise'', 100 :: real), (Bot 0, ''call'', 0), (Bot 1, ''call'', 0),
                           (Human, ''raise'', 200)]. snd (snd c) \<in> \<int>)"
    by (simp add: exampleGame_def totalStacks_def)
  from pot_equals_contributions [OF h k] w
  have "potSize exampleAllIn = contributions exampleGame exampleAllIn
        \<and> 0 \<le> stack (humanPlayer exampleAllIn)
        \<and> length (bots exampleAllIn) = length (bots exampleGame)"
    by (simp add: exampleAllIn_def)
  moreover have "potSize exampleAllIn = 500"
    by (simp add: exampleAllIn_eq)
  ultimately show ?thesis by simp
qed

text \<open>
  C1 as stated, for any amounts, fails for a raise of 10.1 by the human player of the
  example game: the stack of 300 becomes the number nearest to 289.9, so that the stack
  has gone down by 10.100000000000023 (also when the difference is computed in the
  number format), and the pot holds the number nearest to 10.1.
\<close>

lemma min_tenPointOne: "min tenPointOne 300 = tenPointOne" "0 < tenPointOne"
  by (simp_all add: tenPointOne_def)

lemma exampleFractionalRaise_eq:
  "exampleFractionalRaise =
     exampleGame\<lparr>humanPlayer := \<lparr>stack = 5099974734276198 / 17592186044416, folded = False,
                                 betInCurrentRound = tenPointOne, isActive = True\<rparr>,
                 potSize := tenPointOne\<rparr>"
  by (simp add: exampleFractionalRaise_def applyAction_def applyTry_def applySwitch_def
        getPlayer_def setPlayer_def calculateCallAmount_def highestBotBet_def Let_def
        exampleGame_def min_tenPointOne fl_tenPointOne fl_300_minus_tenPointOne)

theorem pot_fractional_raise_counterexample:
  "potSize exampleGame = 0
   \<and> betInCurrentRound (humanPlayer exampleGame) = 0
   \<and> map betInCurrentRound (bots exampleGame) = [0, 0]
   \<and> stack (humanPlayer exampleGame) = 300
   \<and> map stack (bots exampleGame) = [1000, 100]
   \<and> potSize exampleFractionalRaise = 5685794529555251 / 562949953421312
   \<and> contributions exampleGame exampleFractionalRaise = 177681079048602 / 17592186044416
   \<and> fl (stack (humanPlayer exampleGame) - stack (humanPlayer exampleFractionalRaise))
       = 177681079048602 / 17592186044416
   \<and> potSize exampleFractionalRaise \<noteq> contributions exampleGame exampleFractionalRaise"
proof -
  have c: "contributions exampleGame exampleFractionalRaise = 177681079048602 / 17592186044416"
    by (simp add: exampleFractionalRaise_eq contributions_def exampleGame_def)
  have p: "potSize exampleFractionalRaise = 5685794529555251 / 562949953421312"
    by (simp add: exampleFractionalRaise_eq tenPointOne_def)
  have d: "fl (stack (humanPlayer exampleGame) - stack (humanPlayer exampleFractionalRaise))
             = 177681079048602 / 17592186044416"
    using fl_decrease by (simp add: exampleFractionalRaise_eq exampleGame_def)
  have "potSize exampleFractionalRaise \<noteq> contributions exampleGame exampleFractionalRaise"
    unfolding c p by simp
  with c p d show ?thesis by (simp add: exampleGame_def)
qed

subsection \<open>Street transitions\<close>

text \<open>What \<open>startRound\<close> leaves in the pot, also when dealing fails: the sum of the
  bets of the street that has just ended, as \<open>updatePotSize\<close> adds them up, and
  nothing of the streets before it.\<close>

lemma startRound_pot:
  assumes "rnd \<in> set [''preflop'', ''flop'', ''turn'', ''river'']"
  shows "potSize (fst (startRound s rnd communityCards))
           = fl (fold (\<lambda>bot total. fl (total + betInCurrentRound bot)) (bots s) 0
                 + betInCurrentRound (humanPlayer s))"
    and "betInCurrentRound (humanPlayer (fst (startRound s rnd communityCards))) = 0"
    and "\<forall>b \<in> set (bots (fst (startRound s rnd communityCards))). betInCurrentRound b = 0"
  using assms
  by (auto simp: startRound_def updatePotSize_def dealFlop_def dealTurn_def
        dealRiver_def dealOne_def burn_def logEvent_def Let_def
        split: sum.splits list.splits)

text \<open>
  C2. The claim: on a street transition the pot is recomputed from all contributions of
  the hand, so that what was put in on earlier streets stays in the pot. In the example
  hand every actor puts in 50 before the flop and 20 on the flop: the pot is 210 when the
  flop betting ends, and 210 is what the three actors have put in. \<open>startRound\<close> for
  the turn succeeds and leaves a pot of 60, the flop bets alone.
\<close>

theorem startRound_loses_earlier_streets:
  "potSize exampleFlopBets = 210
   \<and> contributions exampleGame exampleFlopBets = 210
   \<and> snd (startRound exampleFlopBets ''turn'' (boardCards exampleFlopBets)) = None
   \<and> potSize exampleTurn = 60
   \<and> contributions exampleGame exampleTurn = 210"
  unfolding exampleTurn_def
  by (simp add: street_defs exampleFlopBets_fields exampleFlop_fields contributions_def
        exampleGame_def orderedDeck_def)

subsection \<open>The result record\<close>

lemma roundEven_nonpos: "y \<le> 0 \<Longrightarrow> roundEven y \<le> 0"
proof -
  assume y: "y \<le> 0"
  have f: "\<lfloor>y\<rfloor> \<le> 0" using y by simp
  have "\<lfloor>y\<rfloor> + 1 \<le> 0" if "1 / 2 \<le> y - of_int \<lfloor>y\<rfloor>"
  proof -
    from that have "of_int \<lfloor>y\<rfloor> < y" by simp
    with y have "real_of_int \<lfloor>y\<rfloor> < 0" by linarith
    then have "\<lfloor>y\<rfloor> < 0" by linarith
    then show ?thesis by linarith
  qed
  with f show ?thesis
    by (auto simp: roundEven_def Let_def)
qed

lemma fl_nonpos: "x \<le> 0 \<Longrightarrow> fl x \<le> 0"
proof -
  assume x: "x \<le> 0"
  have "x / ulp x \<le> 0" using x ulp_pos [of x] by (simp add: divide_nonpos_pos)
  then have "roundEven (x / ulp x) \<le> 0" by (rule roundEven_nonpos)
  then have "ulp x * of_int (roundEven (x / ulp x)) \<le> 0"
    using ulp_pos [of x] by (simp add: mult_nonneg_nonpos)
  then show ?thesis by (simp add: fl_def)
qed

lemma fold_highest_le:
  "fold (\<lambda>bot highestBet.
           if \<not> folded bot \<and> betInCurrentRound bot > highestBet
           then betInCurrentRound bot else highestBet) bs h \<le> m
   \<longleftrightarrow> h \<le> m \<and> (\<forall>b \<in> set bs. \<not> folded b \<longrightarrow> betInCurrentRound b \<le> m)"
  by (induction bs arbitrary: h) auto

lemma highestBotBet_le:
  "highestBotBet bs \<le> m \<longleftrightarrow> 0 \<le> m \<and> (\<forall>b \<in> set bs. \<not> folded b \<longrightarrow> betInCurrentRound b \<le> m)"
  by (simp add: highestBotBet_def fold_highest_le)

lemma calculateCallAmount_nonneg: "0 \<le> calculateCallAmount s pl"
  by (simp add: calculateCallAmount_def Let_def)

lemma calculateCallAmount_zero:
  assumes "highestBotBet (bots s) \<le> betInCurrentRound pl"
    and "\<not> folded (humanPlayer s) \<longrightarrow> betInCurrentRound (humanPlayer s) \<le> betInCurrentRound pl"
  shows "calculateCallAmount s pl = 0"
proof -
  define hb where "hb = (let highestBet = highestBotBet (bots s)
                  in if \<not> folded (humanPlayer s) \<and> betInCurrentRound (humanPlayer s) > highestBet
                     then betInCurrentRound (humanPlayer s) else highestBet)"
  have "hb \<le> betInCurrentRound pl" using assms by (simp add: hb_def Let_def)
  then have "fl (hb - betInCurrentRound pl) \<le> 0" by (intro fl_nonpos) simp
  moreover have "calculateCallAmount s pl = max 0 (fl (hb - betInCurrentRound pl))"
    by (simp add: calculateCallAmount_def hb_def Let_def)
  ultimately show ?thesis by simp
qed

text \<open>With whole chips, the bet plus the amount owed reaches the highest bet.\<close>

lemma calculateCallAmount_reaches:
  assumes "wholeChipState s" "wholeChips pl"
  shows "highestBotBet (bots s) \<le> betInCurrentRound pl + calculateCallAmount s pl"
    and "\<not> folded (humanPlayer s) \<longrightarrow>
           betInCurrentRound (humanPlayer s) \<le> betInCurrentRound pl + calculateCallAmount s pl"
proof -
  define hb where "hb = (let highestBet = highestBotBet (bots s)
                  in if \<not> folded (humanPlayer s) \<and> betInCurrentRound (humanPlayer s) > highestBet
                     then betInCurrentRound (humanPlayer s) else highestBet)"
  have hb: "hb \<in> \<int> \<and> 0 \<le> hb \<and> hb < 2 ^ 53"
    unfolding hb_def using assms(1) by (rule highest_whole)
  have pl: "betInCurrentRound pl \<in> \<int>" "0 \<le> betInCurrentRound pl" "betInCurrentRound pl < 2 ^ 53"
    using assms(2) by (auto simp: wholeChips_def)
  have "fl (hb - betInCurrentRound pl) = hb - betInCurrentRound pl"
    using hb pl by (intro fl_Ints) auto
  moreover have "calculateCallAmount s pl = max 0 (fl (hb - betInCurrentRound pl))"
    by (simp add: calculateCallAmount_def hb_def Let_def)
  ultimately have ge: "hb \<le> betInCurrentRound pl + calculateCallAmount s pl" by simp
  have "highestBotBet (bots s) \<le> hb"
    and "\<not> folded (humanPlayer s) \<longrightarrow> betInCurrentRound (humanPlayer s) \<le> hb"
    by (auto simp: hb_def Let_def)
  with ge show "highestBotBet (bots s) \<le> betInCurrentRound pl + calculateCallAmount s pl"
    and "\<not> folded (humanPlayer s) \<longrightarrow>
           betInCurrentRound (humanPlayer s) \<le> betInCurrentRound pl + calculateCallAmount s pl"
    by auto
qed

lemma call_after_full_call:
  assumes gp: "getPlayer s p = Some pl"
    and hb: "highestBotBet (bots s) \<le> b'"
    and hum: "\<not> folded (humanPlayer s) \<longrightarrow> betInCurrentRound (humanPlayer s) \<le> b'"
  shows "calculateCallAmount
           ((setPlayer s p (pl\<lparr>stack := st, betInCurrentRound := b'\<rparr>))\<lparr>potSize := x\<rparr>)
           (pl\<lparr>stack := st, betInCurrentRound := b'\<rparr>) = 0"
proof -
  let ?pl' = "pl\<lparr>stack := st, betInCurrentRound := b'\<rparr>"
  from hb have all: "\<forall>b \<in> set (bots s). \<not> folded b \<longrightarrow> betInCurrentRound b \<le> b'"
    and nn: "0 \<le> b'"
    by (simp_all add: highestBotBet_le)
  show ?thesis
  proof (cases p)
    case Human
    with hb show ?thesis
      by (intro calculateCallAmount_zero) (simp_all add: setPlayer_def)
  next
    case (Bot i)
    have sub: "set ((bots s)[i := ?pl']) \<subseteq> insert ?pl' (set (bots s))"
      by (rule set_update_subset_insert)
    have "highestBotBet ((bots s)[i := ?pl']) \<le> b'"
      unfolding highestBotBet_le using all nn sub by auto
    with hum Bot show ?thesis
      by (intro calculateCallAmount_zero) (simp_all add: setPlayer_def)
  qed
qed

lemma getPlayer_setPlayer:
  "getPlayer s p = Some pl \<Longrightarrow> getPlayer ((setPlayer s p pl')\<lparr>potSize := x\<rparr>) p = Some pl'"
  by (cases p) (auto simp: getPlayer_def setPlayer_def split: if_splits)

text \<open>With whole chips a call reports an amount of 0, whatever it has moved: after the
  move the player either has matched the highest bet or has no chips left.\<close>

lemma call_reports_zero:
  assumes inv: "wholeChipState s" and gp: "getPlayer s p = Some pl"
  shows "amount (snd (applyAction s p ''call'' amt)) = Some 0"
proof -
  have pl: "wholeChips pl" using inv gp by (rule wholeChips_getPlayer)
  define owed where "owed = calculateCallAmount s pl"
  have o0: "0 \<le> owed" by (simp add: owed_def calculateCallAmount_nonneg)
  have oi: "owed \<in> \<int>" unfolding owed_def using inv pl by (rule calculateCallAmount_whole)
  have st: "stack pl \<in> \<int>" "0 \<le> stack pl" "betInCurrentRound pl \<in> \<int>"
    "0 \<le> betInCurrentRound pl" "stack pl + betInCurrentRound pl < 2 ^ 53"
    using pl by (simp_all add: wholeChips_def)
  consider (none) "min owed (stack pl) \<le> 0" | (full) "0 < owed" "owed \<le> stack pl"
    | (allin) "0 < stack pl" "stack pl < owed"
    by linarith
  then show ?thesis
  proof cases
    case none
    then have "\<not> (0 < calculateCallAmount s pl \<and> 0 < stack pl)"
      by (auto simp: owed_def)
    then have sw: "applySwitch s p ''call'' amt = Inr s"
      using gp by (auto simp: applySwitch_def Let_def)
    from none o0 st(2) have "min owed (stack pl) = 0" by linarith
    then show ?thesis
      using sw gp by (simp add: applyAction_def applyTry_def owed_def)
  next
    case full
    let ?pl' = "pl\<lparr>stack := stack pl - owed, betInCurrentRound := betInCurrentRound pl + owed\<rparr>"
    let ?s' = "(setPlayer s p ?pl')\<lparr>potSize := fl (potSize s + owed)\<rparr>"
    from full have m: "min owed (stack pl) = owed" by simp
    have e1: "fl (stack pl - owed) = stack pl - owed"
      using st oi full by (intro fl_Ints) auto
    have e2: "fl (betInCurrentRound pl + owed) = betInCurrentRound pl + owed"
      using st oi full by (intro fl_Ints) auto
    have sw: "applySwitch s p ''call'' amt = Inr ?s'"
      using gp full by (simp add: applySwitch_def Let_def m e1 e2 flip: owed_def)
    have "calculateCallAmount ?s' ?pl' = 0"
      using gp calculateCallAmount_reaches [OF inv pl]
      by (intro call_after_full_call) (simp_all add: owed_def)
    then show ?thesis
      using sw getPlayer_setPlayer [OF gp] full
      by (simp add: applyAction_def applyTry_def)
  next
    case allin
    let ?pl' = "pl\<lparr>stack := 0, betInCurrentRound := fl (betInCurrentRound pl + stack pl)\<rparr>"
    let ?s' = "(setPlayer s p ?pl')\<lparr>potSize := fl (potSize s + stack pl)\<rparr>"
    from allin have m: "min owed (stack pl) = stack pl" by simp
    have sw: "applySwitch s p ''call'' amt = Inr ?s'"
      using gp allin by (simp add: applySwitch_def Let_def m fl_numeral flip: owed_def)
    have "0 \<le> calculateCallAmount ?s' ?pl'" by (rule calculateCallAmount_nonneg)
    then show ?thesis
      using sw getPlayer_setPlayer [OF gp]
      by (simp add: applyAction_def applyTry_def)
  qed
qed

text \<open>
  C3. The claim: the \<open>amount\<close> of the result is the number of chips the call has
  moved. In the example game the human player has raised 50 and bot 0, with 1000 chips,
  calls: 50 chips go from the bot's stack to the pot and the bot's street bet, and the
  result reports an amount of 0, computed from the stack and the bet as they are after
  the move.
\<close>

theorem applyAction_call_amount:
  "map stack (bots exampleHumanRaised) = [1000, 100]
   \<and> potSize exampleHumanRaised = 50
   \<and> map stack (bots (fst (applyAction exampleHumanRaised (Bot 0) ''call'' 0))) = [950, 100]
   \<and> potSize (fst (applyAction exampleHumanRaised (Bot 0) ''call'' 0)) = 100
   \<and> snd (applyAction exampleHumanRaised (Bot 0) ''call'' 0)
       = \<lparr>success = True, action = ''call'', amount = Some 0, remainingStack = Some 950,
          error = None\<rparr>"
  unfolding exampleHumanRaised_eq
  by (simp add: engine_defs exampleGame_def)

text \<open>The same for a raise of more than half the stack: 200 chips of 300 move, and the
  amount reported is the 100 that remain.\<close>

lemma applyAction_raise_amount:
  "stack (humanPlayer (fst (applyAction exampleGame Human ''raise'' 200))) = 100
   \<and> potSize (fst (applyAction exampleGame Human ''raise'' 200)) = 200
   \<and> amount (snd (applyAction exampleGame Human ''raise'' 200)) = Some 100"
  by (simp add: engine_defs exampleGame_def)

subsection \<open>End of a betting round, end of a hand\<close>

text \<open>
  C4. The claim: the round is not complete while an active actor with chips left has a
  bet below the highest, and it is complete once the bets of the active actors are
  equal. In \<open>exampleAllIn\<close> the human player has raised 100, both bots have called,
  bot 1 with its last chips, and the human player has raised again with the 200 chips
  left: the human player is all-in for 300, bot 1 is all-in for 100 and bot 0 has bet 100
  with 900 chips left; \<open>isRoundComplete\<close> counts the human
  player both among the players at the highest bet and among the all-in players and
  answers true. In \<open>exampleHumanFolded\<close> the human player has folded and the two
  bots, the only actors left, have both bet 50: \<open>isRoundComplete\<close> and
  \<open>isBettingRoundComplete\<close> keep the folded human player's bet of 0 in the
  comparison and answer false.
\<close>

theorem isRoundComplete_examples:
  "actorStillToAct exampleAllIn \<and> isRoundComplete exampleAllIn
   \<and> allActiveBetsEqual exampleHumanFolded
   \<and> \<not> isRoundComplete exampleHumanFolded \<and> \<not> isBettingRoundComplete exampleHumanFolded"
  unfolding exampleAllIn_eq exampleHumanFolded_eq
  by (simp add: isRoundComplete_def isBettingRoundComplete_def actorStillToAct_def
        allActiveBetsEqual_def activeUnfolded_def actors_def uniq_def exampleGame_def Let_def)

text \<open>
  C5. The claim: the hand is complete exactly when at most one active, unfolded actor
  is left. In \<open>exampleHeadsUpBots\<close> the human player has folded, bot 0 has called
  and bot 1 has folded: bot 0 is the one actor left, and \<open>isHandComplete\<close> answers false: it counts the human
  player whether folded or not.
\<close>

theorem isHandComplete_human_folded:
  "length (activeUnfolded exampleHeadsUpBots) = 1 \<and> \<not> isHandComplete exampleHeadsUpBots"
  unfolding exampleHeadsUpBots_eq
  by (simp add: isHandComplete_def activeUnfolded_def actors_def exampleGame_def)

text \<open>\<open>isHandComplete\<close> is the test that no bot is active and unfolded; it
  agrees with the count of active, unfolded actors as long as the human player is one
  of them.\<close>

lemma isHandComplete_human_active:
  "isActive (humanPlayer s) \<and> \<not> folded (humanPlayer s) \<Longrightarrow>
   isHandComplete s \<longleftrightarrow> length (activeUnfolded s) \<le> 1"
  by (simp add: isHandComplete_def activeUnfolded_def actors_def conj_commute)

lemma isHandComplete_iff:
  "isHandComplete s \<longleftrightarrow> filter (\<lambda>b. \<not> folded b \<and> isActive b) (bots s) = []"
  by (simp add: isHandComplete_def)

section \<open>Properties of the hand evaluator\<close>

text \<open>
  C6 as stated, a value between 1 and 10 for every input, fails for two hole cards and
  an empty board: the value is 0.
\<close>

theorem evaluatePokerHand_incomplete_counterexample:
  "\<not> (1 \<le> val (evaluatePokerHand [\<lparr>suit = Hearts, rank = RA\<rparr>, \<lparr>suit = Hearts, rank = RK\<rparr>] [])
      \<and> val (evaluatePokerHand [\<lparr>suit = Hearts, rank = RA\<rparr>, \<lparr>suit = Hearts, rank = RK\<rparr>] []) \<le> 10)"
  by (simp add: evaluatePokerHand_def)

text \<open>
  C6, amended. With fewer than five cards in all, \<open>evaluatePokerHand\<close> returns the
  record of category high card, value 0 and description "Incomplete hand"; with five
  cards or more the value lies between 1 and 10.
\<close>

theorem evaluatePokerHand_value_range:
  "(length (holeCards @ communityCards) < 5 \<longrightarrow>
      evaluatePokerHand holeCards communityCards
        = \<lparr>category = ''high_card'', val = 0, description = ''Incomplete hand'', details = None\<rparr>)
   \<and> (5 \<le> length (holeCards @ communityCards) \<longrightarrow>
        1 \<le> val (evaluatePokerHand holeCards communityCards)
        \<and> val (evaluatePokerHand holeCards communityCards) \<le> 10)"
  by (simp add: evaluatePokerHand_def Let_def split: prod.splits)

theorem evaluatePokerHand_value_range_witness:
  "val (evaluatePokerHand [\<lparr>suit = Hearts, rank = R3\<rparr>, \<lparr>suit = Diamonds, rank = R3\<rparr>] []) = 0
   \<and> 1 \<le> val (evaluatePokerHand [\<lparr>suit = Hearts, rank = R3\<rparr>, \<lparr>suit = Diamonds, rank = R3\<rparr>]
                 [\<lparr>suit = Clubs, rank = R5\<rparr>, \<lparr>suit = Diamonds, rank = R7\<rparr>,
                  \<lparr>suit = Spades, rank = R9\<rparr>])
   \<and> val (evaluatePokerHand [\<lparr>suit = Hearts, rank = R3\<rparr>, \<lparr>suit = Diamonds, rank = R3\<rparr>]
             [\<lparr>suit = Clubs, rank = R5\<rparr>, \<lparr>suit = Diamonds, rank = R7\<rparr>,
              \<lparr>suit = Spades, rank = R9\<rparr>]) \<le> 10"
  using evaluatePokerHand_value_range
          [of "[\<lparr>suit = Hearts, rank = R3\<rparr>, \<lparr>suit = Diamonds, rank = R3\<rparr>]" "[]"]
        evaluatePokerHand_value_range
          [of "[\<lparr>suit = Hearts, rank = R3\<rparr>, \<lparr>suit = Diamonds, rank = R3\<rparr>]"
              "[\<lparr>suit = Clubs, rank = R5\<rparr>, \<lparr>suit = Diamonds, rank = R7\<rparr>,
                \<lparr>suit = Spades, rank = R9\<rparr>]"]
  by simp

subsection \<open>Winners\<close>

lemma fold_max_mem: "fold max xs (x::'a::linorder) \<in> set (x # xs)"
proof (induction xs arbitrary: x)
  case Nil
  show ?case by simp
next
  case (Cons y ys)
  have step: "fold max ys (max y x) \<in> set (max y x # ys)" by (rule Cons.IH)
  have "max y x = x \<or> max y x = y" by (simp add: max_def)
  then show ?case
  proof
    assume "max y x = x"
    with step show ?thesis by auto
  next
    assume "max y x = y"
    with step show ?thesis by auto
  qed
qed

lemma mathMax_mem: "mathMax xs = Some m \<Longrightarrow> m \<in> set xs"
  using fold_max_mem by (cases xs) auto

lemma mathMax_Some: "xs \<noteq> [] \<Longrightarrow> \<exists>m. mathMax xs = Some m"
  by (cases xs) auto

lemma fold_max_const: "\<forall>y \<in> set xs. y = x \<Longrightarrow> fold max xs (x::'a::linorder) = x"
  by (induction xs) auto

lemma mathMax_const: "xs \<noteq> [] \<Longrightarrow> \<forall>y \<in> set xs. y = c \<Longrightarrow> mathMax xs = Some c"
  by (cases xs) (auto simp: fold_max_const)

lemma enumerate_not_Nil: "xs \<noteq> [] \<Longrightarrow> enumerate n xs \<noteq> []"
  by (cases xs) simp_all

lemma map_fst_enumerate_const:
  "map fst (map (\<lambda>(i, h). (i, c)) (enumerate n xs)) = [n..<n + length xs]"
  by (simp add: comp_def case_prod_unfold flip: map_fst_enumerate)

lemma filter_mathMax_not_Nil:
  assumes "evs \<noteq> []"
  shows "filter (\<lambda>e. Some (snd e) = mathMax (map snd evs)) evs \<noteq> []"
proof -
  from assms have "map snd evs \<noteq> []" by simp
  then obtain m where m: "mathMax (map snd evs) = Some m"
    using mathMax_Some by blast
  then have "m \<in> set (map snd evs)" by (rule mathMax_mem)
  then have "m \<in> snd ` set evs" by (simp only: set_map)
  then obtain e where "e \<in> set evs" "m = snd e" by (rule imageE)
  then show ?thesis
    unfolding m by (auto simp: filter_empty_conv)
qed

lemma determineWinners_unfold:
  "playerHands \<noteq> [] \<Longrightarrow>
   determineWinners playerHands communityCards =
     (let evs = map (\<lambda>(index, handInfo).
                      if \<not> active handInfo then (index, - 1)
                      else (index, val (evaluatePokerHand (cards handInfo) communityCards)))
                    (enumerate 0 playerHands)
      in map fst (filter (\<lambda>e. Some (snd e) = mathMax (map snd evs)) evs))"
  by (simp add: determineWinners_def Let_def)

text \<open>
  C10. For a non-empty list of player hands, \<open>determineWinners\<close> returns the indices
  of all players when no player is active, and in every case a non-empty list.
\<close>

theorem determineWinners_all_inactive:
  assumes "playerHands \<noteq> []"
  shows "((\<forall>h \<in> set playerHands. \<not> active h) \<longrightarrow>
           determineWinners playerHands communityCards = [0..<length playerHands])
       \<and> determineWinners playerHands communityCards \<noteq> []"
proof -
  define evs where "evs = map (\<lambda>(index, handInfo).
                      if \<not> active handInfo then (index, - 1)
                      else (index, val (evaluatePokerHand (cards handInfo) communityCards)))
                    (enumerate 0 playerHands)"
  have dw: "determineWinners playerHands communityCards
            = map fst (filter (\<lambda>e. Some (snd e) = mathMax (map snd evs)) evs)"
    using determineWinners_unfold [OF assms] by (simp add: evs_def Let_def)
  have ne: "evs \<noteq> []"
    using enumerate_not_Nil [OF assms, of 0] by (simp add: evs_def)
  have all: "determineWinners playerHands communityCards = [0..<length playerHands]"
    if inactive: "\<forall>h \<in> set playerHands. \<not> active h"
  proof -
    have evs: "evs = map (\<lambda>(i, h). (i, - 1)) (enumerate 0 playerHands)"
      using inactive by (auto simp: evs_def in_set_enumerate_eq)
    have "\<forall>y \<in> set (map snd evs). y = - 1" by (auto simp: evs)
    with ne have "mathMax (map snd evs) = Some (- 1)"
      by (intro mathMax_const) simp_all
    moreover have "\<forall>e \<in> set evs. snd e = - 1" by (auto simp: evs)
    ultimately have "filter (\<lambda>e. Some (snd e) = mathMax (map snd evs)) evs = evs"
      by (simp add: filter_id_conv)
    then show ?thesis
      unfolding dw using map_fst_enumerate_const [of "- 1" 0 playerHands]
      by (simp add: evs)
  qed
  have "determineWinners playerHands communityCards \<noteq> []"
    unfolding dw using filter_mathMax_not_Nil [OF ne] by simp
  with all show ?thesis by blast
qed

theorem determineWinners_all_inactive_witness:
  "determineWinners
     [\<lparr>cards = [\<lparr>suit = Hearts, rank = RA\<rparr>, \<lparr>suit = Hearts, rank = RK\<rparr>], active = False\<rparr>,
      \<lparr>cards = [\<lparr>suit = Clubs, rank = R2\<rparr>, \<lparr>suit = Spades, rank = R7\<rparr>], active = False\<rparr>]
     [] = [0, 1]"
proof -
  have ne: "[\<lparr>cards = [\<lparr>suit = Hearts, rank = RA\<rparr>, \<lparr>suit = Hearts, rank = RK\<rparr>], active = False\<rparr>,
             \<lparr>cards = [\<lparr>suit = Clubs, rank = R2\<rparr>, \<lparr>suit = Spades, rank = R7\<rparr>], active = False\<rparr>]
            \<noteq> []"
    by simp
  from determineWinners_all_inactive [OF ne, of "[]"] show ?thesis by simp
qed

section \<open>Properties of the advisory decision module\<close>

subsection \<open>The intent-to-action mapper\<close>

text \<open>Without a list of legal actions, or with an empty one, the guard at the head of
  \<open>determineConcreteAction\<close> answers call.\<close>

lemma determineConcreteAction_no_legal_actions:
  "legalActions gameState = None \<or> legalActions gameState = Some [] \<Longrightarrow>
   caAction (determineConcreteAction random botAction gameState) = ''call''"
  by (auto simp: determineConcreteAction_def)

lemma closestLegalAction_legal:
  assumes "la \<noteq> []"
    and "\<not> (actionBias botAction = Some ''fold'' \<and> ''fold'' \<notin> set la \<and> ''call'' \<in> set la
            \<and> difficulty gameState = Some ''EASY'')"
    and "\<forall>b. actionBias botAction = Some b \<longrightarrow> b \<notin> set la"
  shows "caAction (closestLegalAction random botAction gameState la) \<in> set la"
proof -
  obtain first rest where la: "la = first # rest"
    using assms(1) by (cases la) auto
  show ?thesis
    using assms(2,3)
    by (auto simp: closestLegalAction_def Let_def la split: option.splits if_splits)
qed

text \<open>On a non-empty list of legal actions the mapper returns an action of the list in
  every case but one: a fold bias where fold is not legal and call is, in EASY mode.\<close>

lemma determineConcreteAction_legal_otherwise:
  assumes "legalActions gameState = Some la" and "la \<noteq> []"
    and "\<not> (actionBias botAction = Some ''fold'' \<and> ''fold'' \<notin> set la \<and> ''call'' \<in> set la
            \<and> difficulty gameState = Some ''EASY'')"
  shows "caAction (determineConcreteAction random botAction gameState) \<in> set la"
proof (cases "\<exists>bias. actionBias botAction = Some bias \<and> bias \<in> set la")
  case True
  then show ?thesis
    using assms(1,2) by (auto simp: determineConcreteAction_def Let_def)
next
  case False
  then have "\<forall>b. actionBias botAction = Some b \<longrightarrow> b \<notin> set la" by blast
  from closestLegalAction_legal [OF assms(2,3) this, of random] False assms(1,2)
  show ?thesis
    by (auto simp: determineConcreteAction_def Let_def split: option.splits)
qed

text \<open>In that case the mapper returns fold, which is not legal, for every confidence,
  pot, bet and value of \<open>Math.random()\<close>.\<close>

lemma easy_fold_bias_returns_fold:
  assumes "legalActions gameState = Some la" and "''fold'' \<notin> set la" and "''call'' \<in> set la"
    and "difficulty gameState = Some ''EASY''" and "actionBias botAction = Some ''fold''"
  shows "caAction (determineConcreteAction random botAction gameState) = ''fold''"
proof -
  from assms(3) have "la \<noteq> []" by auto
  then show ?thesis
    using assms by (auto simp: determineConcreteAction_def closestLegalAction_def Let_def)
qed

text \<open>
  C7. The claim: for every bias, legal-action set, difficulty and outcome of the
  randomness the mapper returns an element of the legal-action set. With the legal
  actions call and raise, difficulty EASY and a fold bias, the mapper finds that fold is
  not legal, goes on to "pick the closest legal action" and returns fold, whatever
  \<open>Math.random()\<close> returns.
\<close>

theorem determineConcreteAction_easy_fold:
  "caAction (determineConcreteAction random
      \<lparr>botIndex = 0, actionBias = Some ''fold'', confidence = 0.5\<rparr>
      \<lparr>difficulty = Some ''EASY'', statePotSize = Some 100, playerBetSize = Some 10,
       botStacks = Some [2000], legalActions = Some [''call'', ''raise'']\<rparr>) = ''fold''
   \<and> ''fold'' \<notin> set [''call'', ''raise'']"
  by (simp add: determineConcreteAction_def closestLegalAction_def)

subsection \<open>The fallback decision\<close>

text \<open>
  C8 as stated fails in EASY mode: for one bot with an empty stack and a random value of
  0.9 the fallback decision gives the bot a raise bias.
\<close>

theorem generateFallbackDecision_counterexample:
  "[0 :: int] ! 0 = 0
   \<and> botActions (generateFallbackDecision (\<lambda>i. 0.9)
        (Some \<lparr>difficulty = Some ''EASY'', statePotSize = Some 0, playerBetSize = Some 0,
               botStacks = Some [0], legalActions = Some getLegalActions\<rparr>))
      = [\<lparr>botIndex = 0, actionBias = Some ''raise'', confidence = 0.6\<rparr>]"
  by (simp add: generateFallbackDecision_def elemAt_def)

lemma randomIndex_range:
  assumes "0 \<le> r" "r < 1"
  shows "0 \<le> \<lfloor>r * 3\<rfloor> \<and> \<lfloor>r * 3\<rfloor> < 3"
proof -
  have "0 \<le> r * 3" using assms by simp
  moreover have "r * 3 < 3" using assms by simp
  ultimately show ?thesis by (simp add: floor_less_iff)
qed

lemma randomAction_legal:
  assumes "0 \<le> r" "r < 1"
  shows "(let randomActions = [''fold'', ''call'', ''raise''];
              k = \<lfloor>r * real (length randomActions)\<rfloor>
          in if 0 \<le> k then elemAt randomActions (nat k) else None) \<in> Some ` set getLegalActions"
proof -
  define k where "k = \<lfloor>r * 3\<rfloor>"
  from randomIndex_range [OF assms] have "0 \<le> k" "k < 3" by (simp_all add: k_def)
  then have "k = 0 \<or> k = 1 \<or> k = 2" by arith
  then have "(if 0 \<le> k then elemAt [''fold'', ''call'', ''raise''] (nat k) else None)
               \<in> Some ` set getLegalActions"
    by (auto simp: elemAt_def getLegalActions_def)
  then show ?thesis using assms by (simp add: Let_def k_def)
qed

text \<open>
  C8, amended. For game data with an array of N bot stacks, and values of
  \<open>Math.random()\<close> in [0, 1): the fallback decision has exactly N bot actions, the
  action at position i has bot index i and a bias among fold, call and raise (the
  engine's list of legal actions), and unless the difficulty is EASY every bias is call,
  so that no bot is given a raise, whatever its stack.
\<close>

theorem generateFallbackDecision_actions:
  assumes "botStacks g = Some stacks"
    and "\<forall>i < length stacks. 0 \<le> random i \<and> random i < 1"
  shows "length (botActions (generateFallbackDecision random (Some g))) = length stacks
       \<and> (\<forall>i < length stacks.
            botIndex (botActions (generateFallbackDecision random (Some g)) ! i) = int i
            \<and> actionBias (botActions (generateFallbackDecision random (Some g)) ! i)
                \<in> Some ` set getLegalActions
            \<and> (difficulty g \<noteq> Some ''EASY'' \<longrightarrow>
                 actionBias (botActions (generateFallbackDecision random (Some g)) ! i)
                   = Some ''call''
                 \<and> actionBias (botActions (generateFallbackDecision random (Some g)) ! i)
                   \<noteq> Some ''raise''))"
  using assms randomAction_legal
  by (auto simp: generateFallbackDecision_def Let_def getLegalActions_def)

theorem generateFallbackDecision_actions_witness:
  "length (botActions (generateFallbackDecision (\<lambda>i. 0.5)
      (Some \<lparr>difficulty = Some ''NORMAL'', statePotSize = Some 0, playerBetSize = Some 0,
             botStacks = Some [2000, 0], legalActions = Some getLegalActions\<rparr>))) = 2
   \<and> botIndex (botActions (generateFallbackDecision (\<lambda>i. 0.5)
      (Some \<lparr>difficulty = Some ''NORMAL'', statePotSize = Some 0, playerBetSize = Some 0,
             botStacks = Some [2000, 0], legalActions = Some getLegalActions\<rparr>)) ! 1) = 1
   \<and> actionBias (botActions (generateFallbackDecision (\<lambda>i. 0.5)
      (Some \<lparr>difficulty = Some ''NORMAL'', statePotSize = Some 0, playerBetSize = Some 0,
             botStacks = Some [2000, 0], legalActions = Some getLegalActions\<rparr>)) ! 1) = Some ''call''"
proof -
  let ?g = "\<lparr>difficulty = Some ''NORMAL'', statePotSize = Some 0, playerBetSize = Some 0,
             botStacks = Some [2000, 0], legalActions = Some getLegalActions\<rparr>"
  have h1: "botStacks ?g = Some [2000, 0]" by simp
  have h2: "\<forall>i < length [2000, 0 :: int]. 0 \<le> (\<lambda>i. 0.5 :: real) i \<and> (\<lambda>i. 0.5 :: real) i < 1"
    by simp
  from generateFallbackDecision_actions [OF h1 h2] show ?thesis by simp
qed

end
